theory Spec2Isabelle
  imports Main "HOL-Library.Word"
begin

section \<open>Engine strings\<close>

text \<open>
  \<^verbatim>\<open>FString\<close> is the engine's string class. It is modelled as a list of characters;
  the member functions used by \<^verbatim>\<open>GitSourceControlUtils.cpp\<close> are written out
  below with the clamping and the default (case-insensitive) search mode they have in
  the engine.
\<close>

type_synonym FString = string

text \<open>What stops the program: the engine's checked \<^verbatim>\<open>operator[]\<close>.\<close>

datatype fault = IndexOutOfBounds

definition Quote :: char where
  "Quote = CHR 0x22"

definition Tab :: char where
  "Tab = CHR 0x09"

definition Newline :: char where
  "Newline = CHR 0x0A"

text \<open>\<^verbatim>\<open>operator[]\<close>: the index is checked against \<^verbatim>\<open>Len()\<close>.\<close>

definition At :: "FString \<Rightarrow> nat \<Rightarrow> fault + char" where
  "At s i = (if i < length s then Inr (s ! i) else Inl IndexOutOfBounds)"

text \<open>
  \<^verbatim>\<open>RightChop(Count)\<close> and \<^verbatim>\<open>Left(Count)\<close> clamp \<^verbatim>\<open>Count\<close> to \<^verbatim>\<open>[0, Len()]\<close>.
\<close>

definition RightChop :: "FString \<Rightarrow> int \<Rightarrow> FString" where
  "RightChop s Count = drop (nat Count) s"

definition Left_str :: "FString \<Rightarrow> int \<Rightarrow> FString" where
  "Left_str s Count = take (nat Count) s"

text \<open>\<^verbatim>\<open>FindLastChar(c, Index)\<close>: the index of the last occurrence, when there is one.\<close>

fun FindLastChar :: "FString \<Rightarrow> char \<Rightarrow> nat option" where
  "FindLastChar [] c = None"
| "FindLastChar (x # xs) c =
     (case FindLastChar xs c of
        Some i \<Rightarrow> Some (Suc i)
      | None \<Rightarrow> if x = c then Some 0 else None)"

text \<open>
  \<^verbatim>\<open>TrimQuotes()\<close>: one leading quote is removed, and one trailing quote when the
  string is longer than one character.
\<close>

definition TrimQuotes :: "FString \<Rightarrow> FString" where
  "TrimQuotes s =
     (let s1 = (case s of [] \<Rightarrow> [] | c # cs \<Rightarrow> if c = Quote then cs else s)
      in if 1 < length s \<and> last s = Quote then butlast s1 else s1)"

text \<open>
  Case folding of the search functions: ASCII letters only. An upper-case letter
  (65 to 90) gets bit 5 set, which adds 32.
\<close>

definition ToLower :: "char \<Rightarrow> char" where
  "ToLower c =
     (if 65 \<le> (of_char c :: nat) \<and> (of_char c :: nat) \<le> 90
      then (case c of Char b0 b1 b2 b3 b4 b5 b6 b7 \<Rightarrow> Char b0 b1 b2 b3 b4 True b6 b7)
      else c)"

text \<open>
  \<^verbatim>\<open>StartsWith\<close>, \<^verbatim>\<open>EndsWith\<close> and \<^verbatim>\<open>Contains\<close> are called with their default
  \<^verbatim>\<open>ESearchCase::IgnoreCase\<close>. An empty prefix or suffix never matches. The search
  for an empty substring is not fixed by the sources (every call passes a non-empty
  literal); here it succeeds, and no theorem below depends on it.
\<close>

definition StartsWith :: "FString \<Rightarrow> FString \<Rightarrow> bool" where
  "StartsWith s p \<longleftrightarrow>
     p \<noteq> [] \<and> length p \<le> length s \<and> map ToLower (take (length p) s) = map ToLower p"

definition EndsWith :: "FString \<Rightarrow> FString \<Rightarrow> bool" where
  "EndsWith s p \<longleftrightarrow>
     p \<noteq> [] \<and> length p \<le> length s \<and>
     map ToLower (drop (length s - length p) s) = map ToLower p"

text \<open>
  \<^verbatim>\<open>operator==\<close> on two strings ignores case as well, and so do the hash and the key
  comparison of \<^verbatim>\<open>TMap<FString, ...>\<close> and \<^verbatim>\<open>TSet<FString>\<close>: \<open>Key s\<close> is what
  such a container knows of the key \<open>s\<close>.
\<close>

definition Key :: "FString \<Rightarrow> FString" where
  "Key s = map ToLower s"

definition FStringEq :: "FString \<Rightarrow> FString \<Rightarrow> bool" where
  "FStringEq a b \<longleftrightarrow> Key a = Key b"

fun Contains :: "FString \<Rightarrow> FString \<Rightarrow> bool" where
  "Contains [] sub = (sub = [])"
| "Contains (c # cs) sub =
     (map ToLower (take (length sub) (c # cs)) = map ToLower sub \<or> Contains cs sub)"

section \<open>Status line parser\<close>

text \<open>
  Modelled from the spec: the enumerations \<^verbatim>\<open>EFileState\<close>, \<^verbatim>\<open>ETreeState\<close>,
  \<^verbatim>\<open>ELockState\<close> and \<^verbatim>\<open>ERemoteState\<close> are declared in
  \<^verbatim>\<open>GitSourceControlState.h\<close>, which is missing; their values are the ones the data
  model lists.
\<close>

datatype EFileState =
  EFileState_Unset | EFileState_Unknown | EFileState_Unmodified | EFileState_Added
| EFileState_Deleted | EFileState_Modified | EFileState_Renamed | EFileState_Copied
| EFileState_Missing | EFileState_Unmerged

datatype ETreeState =
  ETreeState_Unset | ETreeState_Unmodified | ETreeState_Untracked | ETreeState_Ignored
| ETreeState_Staged | ETreeState_Working | ETreeState_NotInRepo

datatype ELockState =
  ELockState_Unset | ELockState_Unlockable | ELockState_NotLocked | ELockState_Locked
| ELockState_LockedOther

datatype ERemoteState =
  ERemoteState_Unset | ERemoteState_UpToDate | ERemoteState_NotLatest
| ERemoteState_NotAtHead

text \<open>
  \<^verbatim>\<open>FilenameFromGitStatus\<close>: the rename is detected by the last \<^verbatim>\<open>'>'\<close> of the
  line, and two characters are skipped from there.
\<close>

definition FilenameFromGitStatus :: "FString \<Rightarrow> FString" where
  "FilenameFromGitStatus InResult =
     TrimQuotes
       (case FindLastChar InResult (CHR ''>'') of
          Some RenameIndex \<Rightarrow> RightChop InResult (int RenameIndex + 2)
        | None \<Rightarrow> RightChop InResult 3)"

text \<open>
  \<^verbatim>\<open>class FGitStatusParser\<close>. Its two members have no initialiser: \<open>None\<close> is a
  member the constructor never assigned.
\<close>

record FGitStatusParser =
  FileState :: "EFileState option"
  TreeState :: "ETreeState option"

definition IsConflict :: "char \<Rightarrow> char \<Rightarrow> bool" where
  "IsConflict IndexState WCopyState \<longleftrightarrow>
     (IndexState = CHR ''U'' \<or> WCopyState = CHR ''U'')
     \<or> (IndexState = CHR ''A'' \<and> WCopyState = CHR ''A'')
     \<or> (IndexState = CHR ''D'' \<and> WCopyState = CHR ''D'')"

definition ParseStates :: "char \<Rightarrow> char \<Rightarrow> FGitStatusParser" where
  "ParseStates IndexState WCopyState =
     (if IsConflict IndexState WCopyState
      then \<lparr>FileState = Some EFileState_Unmerged, TreeState = Some ETreeState_Working\<rparr>
      else
        let T = (if IndexState = CHR '' '' then Some ETreeState_Working
                 else if WCopyState = CHR '' '' then Some ETreeState_Staged
                 else None)
        in
          if IndexState = CHR ''?'' \<or> WCopyState = CHR ''?''
          then \<lparr>FileState = Some EFileState_Unknown, TreeState = Some ETreeState_Untracked\<rparr>
          else if IndexState = CHR ''!'' \<or> WCopyState = CHR ''!''
          then \<lparr>FileState = Some EFileState_Unknown, TreeState = Some ETreeState_Ignored\<rparr>
          else if IndexState = CHR ''A''
          then \<lparr>FileState = Some EFileState_Added, TreeState = T\<rparr>
          else if IndexState = CHR ''D''
          then \<lparr>FileState = Some EFileState_Deleted, TreeState = T\<rparr>
          else if WCopyState = CHR ''D''
          then \<lparr>FileState = Some EFileState_Missing, TreeState = T\<rparr>
          else if IndexState = CHR ''M'' \<or> WCopyState = CHR ''M''
          then \<lparr>FileState = Some EFileState_Modified, TreeState = T\<rparr>
          else if IndexState = CHR ''R''
          then \<lparr>FileState = Some EFileState_Renamed, TreeState = T\<rparr>
          else if IndexState = CHR ''C''
          then \<lparr>FileState = Some EFileState_Copied, TreeState = T\<rparr>
          else \<lparr>FileState = Some EFileState_Unknown, TreeState = T\<rparr>)"

text \<open>The constructor: both characters are read before anything else.\<close>

definition StatusParser :: "FString \<Rightarrow> fault + FGitStatusParser" where
  "StatusParser InResult =
     (case At InResult 0 of
        Inl e \<Rightarrow> Inl e
      | Inr IndexState \<Rightarrow>
          (case At InResult 1 of
             Inl e \<Rightarrow> Inl e
           | Inr WCopyState \<Rightarrow> Inr (ParseStates IndexState WCopyState)))"


section \<open>Redundant error filter\<close>

text \<open>
  The part of \<^verbatim>\<open>FGitSourceControlCommand\<close> that \<^verbatim>\<open>RemoveRedundantErrors\<close> reads
  and writes.
\<close>

record FGitSourceControlResultInfo =
  InfoMessages :: "FString list"
  ErrorMessages :: "FString list"

record FGitSourceControlCommand =
  ResultInfo :: FGitSourceControlResultInfo
  bCommandSuccessful :: bool

text \<open>
  The first loop of \<^verbatim>\<open>RemoveRedundantErrors\<close>, over the error messages: the state is
  \<^verbatim>\<open>InfoMessages\<close> and \<^verbatim>\<open>bFoundRedundantError\<close>.
\<close>

fun MoveRedundant :: "FString \<Rightarrow> FString list \<Rightarrow> FString list \<times> bool \<Rightarrow> FString list \<times> bool" where
  "MoveRedundant InFilter [] acc = acc"
| "MoveRedundant InFilter (e # es) (Infos, bFound) =
     MoveRedundant InFilter es
       (if Contains e InFilter then (Infos @ [e], True) else (Infos, bFound))"

definition RemoveRedundantErrors :: "FGitSourceControlCommand \<Rightarrow> FString \<Rightarrow> FGitSourceControlCommand" where
  "RemoveRedundantErrors InCommand InFilter =
     (let Errors = ErrorMessages (ResultInfo InCommand);
          (Infos, bFoundRedundantError) =
             MoveRedundant InFilter Errors (InfoMessages (ResultInfo InCommand), False);
          Kept = filter (\<lambda>e. \<not> Contains e InFilter) Errors
      in InCommand
           \<lparr>ResultInfo := \<lparr>InfoMessages = Infos, ErrorMessages = Kept\<rparr>,
            bCommandSuccessful :=
              (if bFoundRedundantError \<and> Kept = [] \<and> \<not> bCommandSuccessful InCommand
               then True else bCommandSuccessful InCommand)\<rparr>)"

section \<open>History parser\<close>

text \<open>\<^verbatim>\<open>LogStatusToString\<close>.\<close>

definition LogStatusToString :: "char \<Rightarrow> FString" where
  "LogStatusToString InStatus =
     (if InStatus = CHR '' '' then ''unmodified''
      else if InStatus = CHR ''M'' then ''modified''
      else if InStatus = CHR ''A'' then ''add''
      else if InStatus = CHR ''D'' then ''delete''
      else if InStatus = CHR ''R'' then ''branch''
      else if InStatus = CHR ''C'' then ''branch''
      else if InStatus = CHR ''T'' then ''type changed''
      else if InStatus = CHR ''U'' then ''unmerged''
      else if InStatus = CHR ''X'' then ''unknown''
      else if InStatus = CHR ''B'' then ''broked pairing''
      else [])"

text \<open>
  \<^verbatim>\<open>FParse::HexNumber\<close> (an unsigned 32-bit accumulator; a character that is no hex
  digit counts as 0) and \<^verbatim>\<open>FCString::Atoi\<close> (leading white space, a sign, then
  digits; the value is not wrapped here).
\<close>

definition HexDigit :: "char \<Rightarrow> nat" where
  "HexDigit c =
     (let n = (of_char c :: nat) in
      if 48 \<le> n \<and> n \<le> 57 then n - 48
      else if 97 \<le> n \<and> n \<le> 102 then n - 97 + 10
      else if 65 \<le> n \<and> n \<le> 70 then n - 65 + 10
      else 0)"

definition HexNumber :: "FString \<Rightarrow> 32 word" where
  "HexNumber s = foldl (\<lambda>Ret c. Ret * 16 + of_nat (HexDigit c)) 0 s"

definition IsWhitespace :: "char \<Rightarrow> bool" where
  "IsWhitespace c \<longleftrightarrow> (let n = (of_char c :: nat) in n = 32 \<or> (9 \<le> n \<and> n \<le> 13))"

definition IsDigit :: "char \<Rightarrow> bool" where
  "IsDigit c \<longleftrightarrow> (let n = (of_char c :: nat) in 48 \<le> n \<and> n \<le> 57)"

definition Digits :: "FString \<Rightarrow> int" where
  "Digits s = foldl (\<lambda>v c. v * 10 + int (of_char c - 48)) 0 (takeWhile IsDigit s)"

definition Atoi :: "FString \<Rightarrow> int" where
  "Atoi s =
     (case dropWhile IsWhitespace s of
        [] \<Rightarrow> 0
      | c # cs \<Rightarrow>
          if c = CHR ''-'' then - Digits cs
          else if c = CHR ''+'' then Digits cs
          else Digits (c # cs))"

text \<open>
  Modelled from the spec: \<^verbatim>\<open>FGitSourceControlRevision\<close> is declared in
  \<^verbatim>\<open>GitSourceControlRevision.h\<close>, which is not among the sources. The members are
  those of the data model's revision that \<^verbatim>\<open>ParseLogResults\<close> writes; \<^verbatim>\<open>Date\<close> is
  the Unix time stamp. A new object has \<^verbatim>\<open>RevisionNumber = 0\<close> (by the test
  \<^verbatim>\<open>RevisionNumber != 0\<close> the parser tells a revision that has seen its
  \<^verbatim>\<open>commit\<close> line), empty strings and no \<^verbatim>\<open>BranchSource\<close>.

  Revisions are shared objects (\<^verbatim>\<open>TSharedRef\<close>): they live in a heap, a list
  indexed by address, and \<^verbatim>\<open>OutHistory\<close> and \<^verbatim>\<open>BranchSource\<close> hold addresses.
\<close>

record FGitSourceControlRevision =
  CommitId :: FString
  ShortCommitId :: FString
  CommitIdNumber :: "32 word"
  RevisionNumber :: int
  UserName :: FString
  Date :: int
  Description :: FString
  Action :: FString
  Filename :: FString
  BranchSource :: "nat option"

definition NewRevision :: FGitSourceControlRevision where
  "NewRevision =
     \<lparr>CommitId = [], ShortCommitId = [], CommitIdNumber = 0, RevisionNumber = 0,
      UserName = [], Date = 0, Description = [], Action = [], Filename = [],
      BranchSource = None\<rparr>"

type_synonym RevisionHeap = "FGitSourceControlRevision list"

text \<open>
  The state of the first loop of \<^verbatim>\<open>ParseLogResults\<close>: the heap, \<^verbatim>\<open>OutHistory\<close>
  and the address held by \<^verbatim>\<open>SourceControlRevision\<close>.
\<close>

type_synonym LogState = "RevisionHeap \<times> nat list \<times> nat"

definition ParseLogLine :: "FString \<Rightarrow> LogState \<Rightarrow> fault + LogState" where
  "ParseLogLine Result st =
     (case st of (H, OutHistory, Cur) \<Rightarrow>
      if StartsWith Result ''commit '' then
        (case (if RevisionNumber (H ! Cur) \<noteq> 0
               then (H @ [NewRevision], OutHistory @ [Cur], length H)
               else (H, OutHistory, Cur)) of
           (H1, OutHistory1, Cur1) \<Rightarrow>
             let Id = RightChop Result 7; Short = Left_str Id 8 in
             Inr (H1[Cur1 := (H1 ! Cur1)
                    \<lparr>CommitId := Id, ShortCommitId := Short,
                     CommitIdNumber := HexNumber Short, RevisionNumber := - 1\<rparr>],
                  OutHistory1, Cur1))
      else if StartsWith Result ''Author: '' then
        (let UserNameEmail = RightChop Result 8 in
         case FindLastChar UserNameEmail (CHR ''<'') of
           Some EmailIndex \<Rightarrow>
             Inr (H[Cur := (H ! Cur)\<lparr>UserName := Left_str UserNameEmail (int EmailIndex - 1)\<rparr>],
                  OutHistory, Cur)
         | None \<Rightarrow> Inr (H, OutHistory, Cur))
      else if StartsWith Result ''Date:   '' then
        Inr (H[Cur := (H ! Cur)\<lparr>Date := Atoi (RightChop Result 8)\<rparr>], OutHistory, Cur)
      else if StartsWith Result ''    '' then
        Inr (H[Cur := (H ! Cur)
               \<lparr>Description := Description (H ! Cur) @ RightChop Result 4 @ [Newline]\<rparr>],
             OutHistory, Cur)
      else
        (case At Result 0 of
           Inl e \<Rightarrow> Inl e
         | Inr Status \<Rightarrow>
             let H1 = H[Cur := (H ! Cur)\<lparr>Action := LogStatusToString Status\<rparr>] in
             (case FindLastChar Result Tab of
                Some IdxTab \<Rightarrow>
                  Inr (H1[Cur := (H1 ! Cur)\<lparr>Filename := RightChop Result (int IdxTab + 1)\<rparr>],
                       OutHistory, Cur)
              | None \<Rightarrow> Inr (H1, OutHistory, Cur))))"

fun ParseLogLines :: "FString list \<Rightarrow> LogState \<Rightarrow> fault + LogState" where
  "ParseLogLines [] st = Inr st"
| "ParseLogLines (Result # rest) st =
     (case ParseLogLine Result st of
        Inl e \<Rightarrow> Inl e
      | Inr st1 \<Rightarrow> ParseLogLines rest st1)"

text \<open>
  The body of the second loop, at \<^verbatim>\<open>RevisionIndex\<close>; \<^verbatim>\<open>OutHistory.Num() - 1\<close> is
  an \<^verbatim>\<open>int32\<close> subtraction.
\<close>

definition NumberRevision :: "nat list \<Rightarrow> RevisionHeap \<Rightarrow> nat \<Rightarrow> RevisionHeap" where
  "NumberRevision OutHistory H RevisionIndex =
     (let Item = OutHistory ! RevisionIndex;
          H1 = H[Item := (H ! Item)
                  \<lparr>RevisionNumber := int (length OutHistory) - int RevisionIndex\<rparr>]
      in if FStringEq (Action (H1 ! Item)) ''branch''
            \<and> int RevisionIndex < int (length OutHistory) - 1
         then H1[Item := (H1 ! Item)\<lparr>BranchSource := Some (OutHistory ! (RevisionIndex + 1))\<rparr>]
         else H1)"

text \<open>
  \<^verbatim>\<open>ParseLogResults\<close>: \<^verbatim>\<open>OutHistory\<close> is the caller's array, the new revisions
  are appended to it.
\<close>

definition ParseLogResults ::
  "FString list \<Rightarrow> RevisionHeap \<times> nat list \<Rightarrow> fault + RevisionHeap \<times> nat list" where
  "ParseLogResults InResults st =
     (case st of (H0, OutHistory0) \<Rightarrow>
      case ParseLogLines InResults (H0 @ [NewRevision], OutHistory0, length H0) of
        Inl e \<Rightarrow> Inl e
      | Inr (H, OutHistory1, Cur) \<Rightarrow>
          let OutHistory = (if RevisionNumber (H ! Cur) \<noteq> 0 then OutHistory1 @ [Cur]
                            else OutHistory1)
          in Inr (foldl (NumberRevision OutHistory) H [0 ..< length OutHistory], OutHistory))"


text \<open>
  Notions for the properties of the history parser: a line that starts a record, a
  history whose addresses are distinct and allocated, and the invariant of the first
  loop with the number of records seen so far.
\<close>

definition IsCommitLine :: "FString \<Rightarrow> bool" where
  "IsCommitLine Result \<longleftrightarrow> StartsWith Result ''commit ''"

definition HistOk :: "RevisionHeap \<Rightarrow> nat list \<Rightarrow> bool" where
  "HistOk H hist \<longleftrightarrow> distinct hist \<and> (\<forall>a \<in> set hist. a < length H)"

definition LogInv :: "LogState \<Rightarrow> bool" where
  "LogInv st \<longleftrightarrow>
     (case st of (H, hist, Cur) \<Rightarrow>
        HistOk H hist \<and> Cur < length H \<and> Cur \<notin> set hist
        \<and> (RevisionNumber (H ! Cur) = 0 \<or> RevisionNumber (H ! Cur) = - 1))"

definition Seen :: "LogState \<Rightarrow> nat" where
  "Seen st = (case st of (H, hist, Cur) \<Rightarrow>
     length hist + (if RevisionNumber (H ! Cur) = 0 then 0 else 1))"

text \<open>
  The log of the example: the newest commit renames \<^verbatim>\<open>x.txt\<close> to \<^verbatim>\<open>y.txt\<close>, the
  older one adds \<^verbatim>\<open>x.txt\<close>.
\<close>

definition RenameLog :: "FString list" where
  "RenameLog =
     [''commit 97a4e7626681895e073aaefd68b8ac087db81b0b'',
      ''Author: Sebastien Rombauts <sebastien.rombauts@gmail.com>'',
      ''Date:   1431718347 +0200'',
      ''    Rename x to y'',
      ''R100'' @ [Tab] @ ''x.txt'' @ [Tab] @ ''y.txt'',
      ''commit 355f0df26ebd3888adbb558fd42bb8bd3e565000'',
      ''Author: Sebastien Rombauts <sebastien.rombauts@gmail.com>'',
      ''Date:   1431429294 +0200'',
      ''    Add x'',
      ''A'' @ [Tab] @ ''x.txt'']"


section \<open>Containers keyed by strings\<close>

text \<open>
  A \<^verbatim>\<open>TMap<FString, V>\<close> that is only searched and written is a map from \<open>Key k\<close> to
  the stored key and its value; \<^verbatim>\<open>Add\<close> replaces the whole pair. A map that the
  code iterates over is a list of pairs, in the order of the iteration.
\<close>

type_synonym 'v TMap = "FString \<rightharpoonup> FString \<times> 'v"

definition TMap_Add :: "'v TMap \<Rightarrow> FString \<Rightarrow> 'v \<Rightarrow> 'v TMap" where
  "TMap_Add m k v = m(Key k \<mapsto> (k, v))"

definition TMap_Find :: "'v TMap \<Rightarrow> FString \<Rightarrow> 'v option" where
  "TMap_Find m k = map_option snd (m (Key k))"

definition TMap_Contains :: "'v TMap \<Rightarrow> FString \<Rightarrow> bool" where
  "TMap_Contains m k \<longleftrightarrow> m (Key k) \<noteq> None"

fun Pairs_Find :: "(FString \<times> 'v) list \<Rightarrow> FString \<Rightarrow> 'v option" where
  "Pairs_Find [] k = None"
| "Pairs_Find ((k', v) # rest) k = (if Key k' = Key k then Some v else Pairs_Find rest k)"

definition Pairs_Remove :: "(FString \<times> 'v) list \<Rightarrow> FString \<Rightarrow> (FString \<times> 'v) list" where
  "Pairs_Remove m k = filter (\<lambda>p. Key (fst p) \<noteq> Key k) m"

section \<open>Engine string functions of the parsers\<close>

text \<open>
  \<^verbatim>\<open>ParseIntoArray\<close> with a one-character delimiter: the output array is reset, an
  empty string gives no element, and empty pieces are dropped when \<^verbatim>\<open>InCullEmpty\<close>
  is set. \<^verbatim>\<open>TrimEnd\<close> removes trailing white space; \<^verbatim>\<open>Mid\<close> and \<^verbatim>\<open>Right\<close>
  clamp to the string.
\<close>

fun SplitAt :: "char \<Rightarrow> FString \<Rightarrow> FString list" where
  "SplitAt d [] = [[]]"
| "SplitAt d (c # cs) =
     (if c = d then [] # SplitAt d cs
      else (case SplitAt d cs of [] \<Rightarrow> [[c]] | x # xs \<Rightarrow> (c # x) # xs))"

definition ParseIntoArray :: "FString \<Rightarrow> char \<Rightarrow> bool \<Rightarrow> FString list" where
  "ParseIntoArray s Delim InCullEmpty =
     (if s = [] then []
      else if InCullEmpty then filter (\<lambda>x. x \<noteq> []) (SplitAt Delim s)
      else SplitAt Delim s)"

definition TrimEnd :: "FString \<Rightarrow> FString" where
  "TrimEnd s = rev (dropWhile IsWhitespace (rev s))"

definition Mid :: "FString \<Rightarrow> nat \<Rightarrow> nat \<Rightarrow> FString" where
  "Mid s Start Count = take Count (drop Start s)"

definition Right_str :: "FString \<Rightarrow> nat \<Rightarrow> FString" where
  "Right_str s Count = drop (length s - Count) s"

section \<open>Command gateway and batch splitter\<close>

definition MaxFilesPerBatch :: nat where
  "MaxFilesPerBatch = 50"

text \<open>The arguments of one run of the Git binary.\<close>

record GitCall =
  Command :: FString
  PathToGitBinary :: FString
  RepositoryRoot :: FString
  Parameters :: "FString list"
  Files :: "FString list"

text \<open>
  \<^verbatim>\<open>RunCommandInternalRaw\<close> assembles the command line and runs the process. Process
  execution is a capability of the environment: the model takes what
  \<^verbatim>\<open>RunCommandInternalRaw\<close> returns (whether the return code is the expected one,
  the output and the error text) from a function of the environment, which sees the
  calls made before.
\<close>

type_synonym Gateway = "GitCall list \<Rightarrow> GitCall \<Rightarrow> bool \<times> FString \<times> FString"

text \<open>
  The process-wide state: the subprocess calls made so far (oldest first), the two
  static members of \<^verbatim>\<open>FGitLockedFilesCache\<close> (the time in ticks of 100 ns), and the
  last \<^verbatim>\<open>SetReadOnly\<close> request per path.
\<close>

record World =
  Calls :: "GitCall list"
  LastUpdated :: int
  LockedFiles :: "FString TMap"
  ReadOnly :: "FString \<rightharpoonup> bool"


section \<open>Per-file state\<close>

text \<open>
  Modelled from the spec: \<^verbatim>\<open>FGitState\<close> and \<^verbatim>\<open>FGitSourceControlState\<close> are
  declared in \<^verbatim>\<open>GitSourceControlState.h\<close>, which is missing. The fields are those of
  the data model's \<^verbatim>\<open>PerFileState\<close> that the code reads and writes (the conflict
  metadata as \<^verbatim>\<open>PendingResolveInfo\<close>, which the code fills when built for engine 5.3
  or later).
\<close>

record FGitState =
  FileState :: EFileState
  TreeState :: ETreeState
  LockState :: ELockState
  LockUser :: FString
  RemoteState :: ERemoteState
  HeadBranch :: FString

record FResolveInfo =
  BaseFile :: FString
  BaseRevision :: FString
  RemoteFile :: FString
  RemoteRevision :: FString

record FGitSourceControlState =
  LocalFilename :: FString
  State :: FGitState
  PendingResolveInfo :: FResolveInfo
  TimeStamp :: int

text \<open>
  What the functions below take from their surroundings and do not change: the gateway,
  the provider's settings, the file system, the static \<^verbatim>\<open>LockableTypes\<close>, and the
  members of \<^verbatim>\<open>FGitSourceControlState\<close> whose code is in the missing header (its
  constructor \<^verbatim>\<open>MakeState\<close> and the predicates \<^verbatim>\<open>IsConflicted\<close>, \<^verbatim>\<open>IsUnknown\<close>
  and \<^verbatim>\<open>CanAdd\<close>), which are parameters here. \<^verbatim>\<open>ModuleLoaded\<close> tells whether
  \<^verbatim>\<open>FGitSourceControlModule::GetThreadSafe()\<close> returns the module.
  \<^verbatim>\<open>UnassignedFileState\<close> and \<^verbatim>\<open>UnassignedTreeState\<close> are what a member of
  \<^verbatim>\<open>FGitStatusParser\<close> holds when the constructor did not assign it.
\<close>

record Env =
  Git :: Gateway
  GetLockUser :: FString
  UsesCheckout :: bool
  ModuleLoaded :: bool
  LFSLockBinary :: FString
  ConvertRelativePathToFull :: "FString \<Rightarrow> FString \<Rightarrow> FString"
  FileExists :: "FString \<Rightarrow> bool"
  LockableTypes :: "FString list"
  MakeState :: "FString \<Rightarrow> FGitSourceControlState"
  IsConflicted :: "FGitSourceControlState \<Rightarrow> bool"
  IsUnknown :: "FGitSourceControlState \<Rightarrow> bool"
  CanAdd :: "FGitSourceControlState \<Rightarrow> bool"
  UnassignedFileState :: "FString \<Rightarrow> EFileState"
  UnassignedTreeState :: "FString \<Rightarrow> ETreeState"

section \<open>Running commands\<close>

type_synonym CommandResult = "bool \<times> FString list \<times> FString list"

text \<open>\<^verbatim>\<open>RunCommandInternal\<close>: both output arrays are overwritten.\<close>

definition RunCommandInternal :: "Env \<Rightarrow> GitCall \<Rightarrow> World \<Rightarrow> CommandResult \<times> World" where
  "RunCommandInternal env c w =
     (case Git env (Calls w) c of
        (bResult, Results, Errors) \<Rightarrow>
          ((bResult, ParseIntoArray Results Newline True, ParseIntoArray Errors Newline True),
           w\<lparr>Calls := Calls w @ [c]\<rparr>))"

text \<open>
  The \<^verbatim>\<open>while\<close> loop of \<^verbatim>\<open>RunCommand\<close>: \<open>c\<close> holds the command with all the files,
  the accumulator is \<^verbatim>\<open>bResult\<close>, \<^verbatim>\<open>OutResults\<close> and \<^verbatim>\<open>OutErrorMessages\<close>.
\<close>

function RunBatches :: "Env \<Rightarrow> GitCall \<Rightarrow> nat \<Rightarrow> CommandResult \<Rightarrow> World \<Rightarrow> CommandResult \<times> World" where
  "RunBatches env c FileCount acc w =
     (if FileCount < length (Files c) then
        (case acc of (bResult, OutResults, OutErrorMessages) \<Rightarrow>
           (case RunCommandInternal env
                   (c\<lparr>Files := take MaxFilesPerBatch (drop FileCount (Files c))\<rparr>) w of
              ((b, BatchResults, BatchErrors), w1) \<Rightarrow>
                RunBatches env c
                  (FileCount + length (take MaxFilesPerBatch (drop FileCount (Files c))))
                  (bResult \<and> b, OutResults @ BatchResults, OutErrorMessages @ BatchErrors) w1))
      else (acc, w))"
  by pat_completeness auto
termination
  by (relation "measure (\<lambda>(env, c, FileCount, acc, w). length (Files c) - FileCount)")
     (auto simp: MaxFilesPerBatch_def)

text \<open>
  \<^verbatim>\<open>RunCommand\<close>; \<open>out\<close> is the caller's \<^verbatim>\<open>OutResults\<close> and
  \<^verbatim>\<open>OutErrorMessages\<close>, which the batches are appended to.
\<close>

definition RunCommand ::
  "Env \<Rightarrow> GitCall \<Rightarrow> FString list \<times> FString list \<Rightarrow> World \<Rightarrow> CommandResult \<times> World" where
  "RunCommand env c out w =
     (if MaxFilesPerBatch < length (Files c)
      then RunBatches env c 0 (True, fst out, snd out) w
      else RunCommandInternal env c w)"

text \<open>
  \<^verbatim>\<open>RunLFSCommand\<close>, as built with \<^verbatim>\<open>GIT_USE_CUSTOM_LFS\<close> (the default of the file)
  on a supported platform: the binary is the one shipped with the plugin.
\<close>

definition RunLFSCommand ::
  "Env \<Rightarrow> FString \<Rightarrow> FString \<Rightarrow> FString \<Rightarrow> FString list \<Rightarrow> FString list
   \<Rightarrow> FString list \<times> FString list \<Rightarrow> World \<Rightarrow> CommandResult \<times> World" where
  "RunLFSCommand env InCommand InRepositoryRoot GitBinaryFallback InParameters InFiles out w =
     RunCommand env
       \<lparr>Command = InCommand, PathToGitBinary = LFSLockBinary env,
        RepositoryRoot = InRepositoryRoot, Parameters = InParameters, Files = InFiles\<rparr> out w"

text \<open>The \<^verbatim>\<open>while\<close> loop of \<^verbatim>\<open>RunCommit\<close>, over the batches after the first.\<close>

function AmendBatches ::
  "Env \<Rightarrow> FString \<Rightarrow> FString \<Rightarrow> FString list \<Rightarrow> FString list \<Rightarrow> nat \<Rightarrow> CommandResult
   \<Rightarrow> World \<Rightarrow> CommandResult \<times> World" where
  "AmendBatches env InPathToGitBinary InRepositoryRoot Params InFiles FileCount acc w =
     (if FileCount < length InFiles then
        (case acc of (bResult, OutResults, OutErrorMessages) \<Rightarrow>
           (case RunCommandInternal env
                   \<lparr>Command = ''add'', PathToGitBinary = InPathToGitBinary,
                    RepositoryRoot = InRepositoryRoot, Parameters = [''-A''],
                    Files = take MaxFilesPerBatch (drop FileCount InFiles)\<rparr> w of
              ((bAdd, AddResults, AddErrors), w1) \<Rightarrow>
                (case RunCommandInternal env
                        \<lparr>Command = ''commit'', PathToGitBinary = InPathToGitBinary,
                         RepositoryRoot = InRepositoryRoot, Parameters = Params,
                         Files = take MaxFilesPerBatch (drop FileCount InFiles)\<rparr> w1 of
                   ((bCommit, BatchResults, BatchErrors), w2) \<Rightarrow>
                     AmendBatches env InPathToGitBinary InRepositoryRoot Params InFiles
                       (FileCount + length (take MaxFilesPerBatch (drop FileCount InFiles)))
                       ((bResult \<and> bAdd) \<and> bCommit, AddResults @ BatchResults,
                        AddErrors @ BatchErrors) w2)))
      else (acc, w))"
  by pat_completeness auto
termination
  by (relation "measure (\<lambda>(env, bin, root, ps, InFiles, FileCount, acc, w).
                   length InFiles - FileCount)")
     (auto simp: MaxFilesPerBatch_def)

text \<open>\<^verbatim>\<open>RunCommit\<close>.\<close>

definition RunCommit ::
  "Env \<Rightarrow> FString \<Rightarrow> FString \<Rightarrow> FString list \<Rightarrow> FString list \<Rightarrow> World
   \<Rightarrow> CommandResult \<times> World" where
  "RunCommit env InPathToGitBinary InRepositoryRoot InParameters InFiles w =
     (if MaxFilesPerBatch < length InFiles then
        (case RunCommandInternal env
                \<lparr>Command = ''add'', PathToGitBinary = InPathToGitBinary,
                 RepositoryRoot = InRepositoryRoot, Parameters = [''-A''],
                 Files = take MaxFilesPerBatch InFiles\<rparr> w of
           ((bAdd, AddResults, AddErrors), w1) \<Rightarrow>
             (case RunCommandInternal env
                     \<lparr>Command = ''commit'', PathToGitBinary = InPathToGitBinary,
                      RepositoryRoot = InRepositoryRoot, Parameters = InParameters,
                      Files = take MaxFilesPerBatch InFiles\<rparr> w1 of
                ((bCommit, OutResults, OutErrorMessages), w2) \<Rightarrow>
                  AmendBatches env InPathToGitBinary InRepositoryRoot
                    (InParameters @ [''--amend'']) InFiles MaxFilesPerBatch
                    (bAdd \<and> bCommit, OutResults, OutErrorMessages) w2))
      else
        (case RunCommandInternal env
                \<lparr>Command = ''add'', PathToGitBinary = InPathToGitBinary,
                 RepositoryRoot = InRepositoryRoot, Parameters = [''-A''],
                 Files = InFiles\<rparr> w of
           ((bAdd, AddResults, AddErrors), w1) \<Rightarrow>
             RunCommandInternal env
               \<lparr>Command = ''commit'', PathToGitBinary = InPathToGitBinary,
                RepositoryRoot = InRepositoryRoot, Parameters = InParameters,
                Files = InFiles\<rparr> w1))"


section \<open>Lock cache\<close>

definition TicksPerSecond :: int where
  "TicksPerSecond = 10000000"

text \<open>\<^verbatim>\<open>CacheLimit = FTimespan::FromSeconds(30)\<close>.\<close>

definition CacheLimit :: int where
  "CacheLimit = 30 * TicksPerSecond"

text \<open>
  \<^verbatim>\<open>FGitLockedFilesCache\<close>: \<^verbatim>\<open>OnFileLockChanged\<close>, \<^verbatim>\<open>AddLockedFile\<close>,
  \<^verbatim>\<open>RemoveLockedFile\<close> and \<^verbatim>\<open>SetLockedFiles\<close>. The two loops of
  \<^verbatim>\<open>SetLockedFiles\<close> visit disjoint sets of keys, so what they ask of the file
  system is given path by path: a path stored in the old map only, locked by the current
  user, is made read-only; one stored in the new map only is made writable.
\<close>

definition OnFileLockChanged :: "Env \<Rightarrow> FString \<Rightarrow> FString \<Rightarrow> bool \<Rightarrow> World \<Rightarrow> World" where
  "OnFileLockChanged env filePath lockUser locked w =
     (if FStringEq (GetLockUser env) lockUser
      then w\<lparr>ReadOnly := (ReadOnly w)(filePath \<mapsto> \<not> locked)\<rparr>
      else w)"

definition AddLockedFile :: "Env \<Rightarrow> FString \<Rightarrow> FString \<Rightarrow> World \<Rightarrow> World" where
  "AddLockedFile env filePath lockUser w =
     OnFileLockChanged env filePath lockUser True
       (w\<lparr>LockedFiles := TMap_Add (LockedFiles w) filePath lockUser\<rparr>)"

definition RemoveLockedFile :: "Env \<Rightarrow> FString \<Rightarrow> World \<Rightarrow> World" where
  "RemoveLockedFile env filePath w =
     OnFileLockChanged env filePath
       (case TMap_Find (LockedFiles w) filePath of Some u \<Rightarrow> u | None \<Rightarrow> [])
       False
       (w\<lparr>LockedFiles := (LockedFiles w)(Key filePath := None)\<rparr>)"

definition SetLockedFiles :: "Env \<Rightarrow> FString TMap \<Rightarrow> World \<Rightarrow> World" where
  "SetLockedFiles env newLocks w =
     w\<lparr>ReadOnly :=
          (\<lambda>p. case (LockedFiles w (Key p), newLocks (Key p)) of
                  (Some (k, u), None) \<Rightarrow>
                    if k = p \<and> FStringEq (GetLockUser env) u then Some True else ReadOnly w p
                | (None, Some (k, u)) \<Rightarrow>
                    if k = p \<and> FStringEq (GetLockUser env) u then Some False else ReadOnly w p
                | _ \<Rightarrow> ReadOnly w p),
        LockedFiles := newLocks\<rparr>"

text \<open>\<^verbatim>\<open>class FGitLfsLocksParser\<close>: the pair of its members \<^verbatim>\<open>LocalFilename\<close> and \<^verbatim>\<open>LockUser\<close>.\<close>

definition LfsLocksParser :: "Env \<Rightarrow> FString \<Rightarrow> FString \<Rightarrow> bool \<Rightarrow> FString \<times> FString" where
  "LfsLocksParser env InRepositoryRoot InStatus bAbsolutePaths =
     (let Informations = ParseIntoArray InStatus Tab True in
      if 2 \<le> length Informations then
        (let Info0 = TrimEnd (Informations ! 0);
             Info1 = TrimEnd (Informations ! 1);
             Path = (if bAbsolutePaths
                     then ConvertRelativePathToFull env InRepositoryRoot Info0
                     else Info0)
         in if length Informations = 2 \<or> Info1 = [] \<or> StartsWith Info1 ''ID:''
            then (Path, GetLockUser env)
            else (Path, Info1))
      else ([], []))"

text \<open>
  The three loops of \<^verbatim>\<open>GetAllLocks\<close> over the lines of a lock list: every lock,
  the locks of other users only, the locks of the current user only.
\<close>

datatype LockFilter = AllLocks | RemoteLocksOnly | LocalLocksOnly

fun AddLocks ::
  "Env \<Rightarrow> FString \<Rightarrow> LockFilter \<Rightarrow> FString list \<Rightarrow> FString TMap \<Rightarrow> FString TMap" where
  "AddLocks env InRepositoryRoot flt [] OutLocks = OutLocks"
| "AddLocks env InRepositoryRoot flt (Result # rest) OutLocks =
     (case LfsLocksParser env InRepositoryRoot Result True of
        (Path, User) \<Rightarrow>
          AddLocks env InRepositoryRoot flt rest
            (if flt = AllLocks
                \<or> (flt = RemoteLocksOnly \<and> \<not> FStringEq User (GetLockUser env))
                \<or> (flt = LocalLocksOnly \<and> FStringEq User (GetLockUser env))
             then TMap_Add OutLocks Path User
             else OutLocks))"

text \<open>
  \<^verbatim>\<open>GetAllLocks\<close>. \<open>CurrentTime\<close> is what \<^verbatim>\<open>FDateTime::Now()\<close> returns;
  \<open>OutErrorMessages\<close> and \<open>OutLocks\<close> are the caller's arrays. The result is the
  returned flag with the two arrays.
\<close>

definition GetAllLocks ::
  "Env \<Rightarrow> int \<Rightarrow> FString \<Rightarrow> FString \<Rightarrow> FString list \<Rightarrow> FString TMap \<Rightarrow> bool \<Rightarrow> World
   \<Rightarrow> (bool \<times> FString list \<times> FString TMap) \<times> World" where
  "GetAllLocks env CurrentTime InRepositoryRoot GitBinaryFallback OutErrorMessages OutLocks
     bInvalidateCache w =
     (let bCacheExpired =
            (if \<not> bInvalidateCache then CacheLimit < CurrentTime - LastUpdated w
             else bInvalidateCache)
      in
      if bCacheExpired then
        (case RunLFSCommand env ''locks'' InRepositoryRoot GitBinaryFallback [] []
                ([], OutErrorMessages) w of
           ((bResult, Results, Errors1), w1) \<Rightarrow>
             if bResult then
               (let Locks = AddLocks env InRepositoryRoot AllLocks Results OutLocks
                in ((True, Errors1, Locks),
                    SetLockedFiles env Locks (w1\<lparr>LastUpdated := CurrentTime\<rparr>)))
             else if \<not> ModuleLoaded env then
               ((True, Errors1, LockedFiles w1), w1)
             else
               (case RunLFSCommand env ''locks'' InRepositoryRoot GitBinaryFallback
                       [''--cached''] [] ([], Errors1) w1 of
                  ((bCached, Results2, Errors2), w2) \<Rightarrow>
                    (let Locks2 = AddLocks env InRepositoryRoot RemoteLocksOnly Results2 OutLocks
                     in case RunLFSCommand env ''locks'' InRepositoryRoot GitBinaryFallback
                               [''--local''] [] ([], Errors2) w2 of
                          ((bLocal, Results3, Errors3), w3) \<Rightarrow>
                            (let Locks3 = AddLocks env InRepositoryRoot LocalLocksOnly Results3 Locks2
                             in if \<not> (bCached \<and> bLocal)
                                then ((True, Errors3, LockedFiles w3), w3)
                                else ((True, Errors3, Locks3), w3)))))
      else ((True, OutErrorMessages, LockedFiles w), w))"

text \<open>The call that \<^verbatim>\<open>GetAllLocks\<close> makes for a lock list, with its parameters.\<close>

definition LocksCall :: "Env \<Rightarrow> FString \<Rightarrow> FString list \<Rightarrow> GitCall" where
  "LocksCall env InRepositoryRoot Params =
     \<lparr>Command = ''locks'', PathToGitBinary = LFSLockBinary env,
      RepositoryRoot = InRepositoryRoot, Parameters = Params, Files = []\<rparr>"


section \<open>State aggregator\<close>

text \<open>\<^verbatim>\<open>IsFileLFSLockable\<close>, over the static \<^verbatim>\<open>LockableTypes\<close>.\<close>

definition IsFileLFSLockable :: "Env \<Rightarrow> FString \<Rightarrow> bool" where
  "IsFileLFSLockable env InFile = list_ex (EndsWith InFile) (LockableTypes env)"

text \<open>
  Reading a member of the parser: the value the constructor assigned, or whatever the
  member holds when it assigned none.
\<close>

definition ReadFileState :: "Env \<Rightarrow> FString \<Rightarrow> FGitStatusParser \<Rightarrow> EFileState" where
  "ReadFileState env line P =
     (case FGitStatusParser.FileState P of Some f \<Rightarrow> f | None \<Rightarrow> UnassignedFileState env line)"

definition ReadTreeState :: "Env \<Rightarrow> FString \<Rightarrow> FGitStatusParser \<Rightarrow> ETreeState" where
  "ReadTreeState env line P =
     (case FGitStatusParser.TreeState P of Some t \<Rightarrow> t | None \<Rightarrow> UnassignedTreeState env line)"

text \<open>
  \<^verbatim>\<open>RunGetConflictStatus\<close> with \<^verbatim>\<open>FGitConflictStatusParser\<close>, as built for engine
  5.3 or later.
\<close>

definition RunGetConflictStatus ::
  "Env \<Rightarrow> FString \<Rightarrow> FString \<Rightarrow> FString \<Rightarrow> FGitSourceControlState \<Rightarrow> World
   \<Rightarrow> FGitSourceControlState \<times> World" where
  "RunGetConflictStatus env InPathToGitBinary InRepositoryRoot InFile InOutFileState w =
     (case RunCommandInternal env
             \<lparr>Command = ''ls-files'', PathToGitBinary = InPathToGitBinary,
              RepositoryRoot = InRepositoryRoot, Parameters = [''--unmerged''],
              Files = [InFile]\<rparr> w of
        ((bResult, Results, Errs), w1) \<Rightarrow>
          if bResult \<and> length Results = 3
          then (InOutFileState
                  \<lparr>PendingResolveInfo :=
                     \<lparr>BaseFile = Right_str (Results ! 0) 50, BaseRevision = Mid (Results ! 0) 7 40,
                      RemoteFile = Right_str (Results ! 2) 50,
                      RemoteRevision = Mid (Results ! 2) 7 40\<rparr>\<rparr>, w1)
          else (InOutFileState, w1))"

text \<open>
  The state of the loop of \<^verbatim>\<open>ParseFileStatusResult\<close> over the explicit files: the
  status lines not yet claimed (\<^verbatim>\<open>Results\<close>), the local \<^verbatim>\<open>LockedFiles\<close>,
  \<^verbatim>\<open>bCheckedLockedFiles\<close>, \<^verbatim>\<open>OutStates\<close> and the process-wide state.
\<close>

type_synonym StatusLoop =
  "(FString \<times> FString) list \<times> FString TMap \<times> bool \<times> FGitSourceControlState TMap \<times> World"

text \<open>The first half of the loop body: file and tree state of one explicit file.\<close>

definition ClassifyFile ::
  "Env \<Rightarrow> FString \<Rightarrow> FString \<Rightarrow> FString \<Rightarrow> (FString \<times> FString) list \<Rightarrow> World
   \<Rightarrow> fault + (FString \<times> FString) list \<times> FGitSourceControlState \<times> World" where
  "ClassifyFile env InPathToGitBinary InRepositoryRoot File Results w =
     (let S0 = (MakeState env File)
                 \<lparr>State := (State (MakeState env File))
                    \<lparr>FileState := EFileState_Unset, TreeState := ETreeState_Unset,
                     LockState := ELockState_Unset\<rparr>\<rparr>
      in case Pairs_Find Results File of
           Some Result \<Rightarrow>
             (case StatusParser Result of
                Inl e \<Rightarrow> Inl e
              | Inr Parsed \<Rightarrow>
                  (let S1 = S0\<lparr>State := (State S0)
                               \<lparr>FileState := ReadFileState env Result Parsed,
                                TreeState := ReadTreeState env Result Parsed\<rparr>\<rparr>
                   in if IsConflicted env S1
                      then (case RunGetConflictStatus env InPathToGitBinary InRepositoryRoot
                                   File S1 w of
                              (S2, w1) \<Rightarrow> Inr (Pairs_Remove Results File, S2, w1))
                      else Inr (Pairs_Remove Results File, S1, w)))
         | None \<Rightarrow>
             Inr (Results,
                  S0\<lparr>State := (State S0)
                       \<lparr>FileState := EFileState_Unknown,
                        TreeState := (if FileExists env File then ETreeState_Unmodified
                                      else ETreeState_NotInRepo)\<rparr>\<rparr>,
                  w))"

text \<open>
  The loop body. \<open>CurrentTime\<close> is the clock at the one call of \<^verbatim>\<open>GetAllLocks\<close>;
  the error messages of that call go to the message log only.
\<close>

definition ParseFileStatus ::
  "Env \<Rightarrow> int \<Rightarrow> FString \<Rightarrow> FString \<Rightarrow> bool \<Rightarrow> FString \<Rightarrow> StatusLoop \<Rightarrow> fault + StatusLoop" where
  "ParseFileStatus env CurrentTime InPathToGitBinary InRepositoryRoot InUsingLfsLocking File st =
     (case st of (Results, Locked, bCheckedLockedFiles, OutStates, w) \<Rightarrow>
      case ClassifyFile env InPathToGitBinary InRepositoryRoot File Results w of
        Inl e \<Rightarrow> Inl e
      | Inr (Results1, S1, w1) \<Rightarrow>
          if \<not> InUsingLfsLocking then
            Inr (Results1, Locked, bCheckedLockedFiles,
                 TMap_Add OutStates File
                   (S1\<lparr>State := (State S1)\<lparr>LockState := ELockState_Unlockable\<rparr>\<rparr>), w1)
          else if IsFileLFSLockable env File then
            (case (if \<not> bCheckedLockedFiles
                   then (case GetAllLocks env CurrentTime InRepositoryRoot InPathToGitBinary []
                                Locked False w1 of
                           ((b, Errs, Locks), w2) \<Rightarrow> (Locks, w2))
                   else (Locked, w1)) of
               (Locked1, w2) \<Rightarrow>
                 Inr (Results1, Locked1, True,
                      TMap_Add OutStates File
                        (case TMap_Find Locked1 File of
                           Some User \<Rightarrow>
                             S1\<lparr>State := (State S1)
                                  \<lparr>LockUser := User,
                                   LockState := (if FStringEq (GetLockUser env) User
                                                 then ELockState_Locked
                                                 else ELockState_LockedOther)\<rparr>\<rparr>
                         | None \<Rightarrow>
                             S1\<lparr>State := (State S1)\<lparr>LockState := ELockState_NotLocked\<rparr>\<rparr>),
                      w2))
          else
            Inr (Results1, Locked, bCheckedLockedFiles,
                 TMap_Add OutStates File
                   (S1\<lparr>State := (State S1)\<lparr>LockState := ELockState_Unlockable\<rparr>\<rparr>), w1))"

fun ParseFileStatuses ::
  "Env \<Rightarrow> int \<Rightarrow> FString \<Rightarrow> FString \<Rightarrow> bool \<Rightarrow> FString list \<Rightarrow> StatusLoop
   \<Rightarrow> fault + StatusLoop" where
  "ParseFileStatuses env CurrentTime bin root lfs [] st = Inr st"
| "ParseFileStatuses env CurrentTime bin root lfs (File # rest) st =
     (case ParseFileStatus env CurrentTime bin root lfs File st of
        Inl e \<Rightarrow> Inl e
      | Inr st1 \<Rightarrow> ParseFileStatuses env CurrentTime bin root lfs rest st1)"

text \<open>\<^verbatim>\<open>ParseDirectoryStatusResult\<close>, over the status lines left.\<close>

fun ParseDirectoryStatusResult ::
  "Env \<Rightarrow> bool \<Rightarrow> (FString \<times> FString) list \<Rightarrow> FGitSourceControlState TMap
   \<Rightarrow> fault + FGitSourceControlState TMap" where
  "ParseDirectoryStatusResult env InUsingLfsLocking [] OutStates = Inr OutStates"
| "ParseDirectoryStatusResult env InUsingLfsLocking ((k, line) # rest) OutStates =
     (let S0 = (if \<not> InUsingLfsLocking
                then (MakeState env k)
                       \<lparr>State := (State (MakeState env k))\<lparr>LockState := ELockState_Unlockable\<rparr>\<rparr>
                else MakeState env k)
      in case StatusParser line of
           Inl e \<Rightarrow> Inl e
         | Inr Parsed \<Rightarrow>
             if EFileState_Deleted = ReadFileState env line Parsed
                \<or> EFileState_Missing = ReadFileState env line Parsed
                \<or> ETreeState_Untracked = ReadTreeState env line Parsed
             then ParseDirectoryStatusResult env InUsingLfsLocking rest
                    (TMap_Add OutStates k
                       (S0\<lparr>State := (State S0)
                             \<lparr>FileState := ReadFileState env line Parsed,
                              TreeState := ReadTreeState env line Parsed\<rparr>\<rparr>))
             else ParseDirectoryStatusResult env InUsingLfsLocking rest OutStates)"

text \<open>
  \<^verbatim>\<open>ParseFileStatusResult\<close>: \<open>InFiles\<close> is the set of explicit files in the order
  of its iteration, \<open>InResults\<close> the map of status lines.
\<close>

definition ParseFileStatusResult ::
  "Env \<Rightarrow> int \<Rightarrow> FString \<Rightarrow> FString \<Rightarrow> bool \<Rightarrow> FString list \<Rightarrow> (FString \<times> FString) list
   \<Rightarrow> FGitSourceControlState TMap \<Rightarrow> World
   \<Rightarrow> fault + FGitSourceControlState TMap \<times> World" where
  "ParseFileStatusResult env CurrentTime InPathToGitBinary InRepositoryRoot InUsingLfsLocking
     InFiles InResults OutStates w =
     (if \<not> ModuleLoaded env then Inr (OutStates, w)
      else
        case ParseFileStatuses env CurrentTime InPathToGitBinary InRepositoryRoot
               InUsingLfsLocking InFiles (InResults, Map.empty, False, OutStates, w) of
          Inl e \<Rightarrow> Inl e
        | Inr (Results, Locked, bCheckedLockedFiles, OutStates1, w1) \<Rightarrow>
            (case ParseDirectoryStatusResult env InUsingLfsLocking Results OutStates1 of
               Inl e \<Rightarrow> Inl e
             | Inr OutStates2 \<Rightarrow> Inr (OutStates2, w1)))"

text \<open>
  For the properties of the aggregator: the file and tree state of a state, and what an
  explicit file without a status line is classified as.
\<close>

definition FileTreeOf :: "FGitSourceControlState \<Rightarrow> EFileState \<times> ETreeState" where
  "FileTreeOf S = (FileState (State S), TreeState (State S))"

definition AbsentResult :: "Env \<Rightarrow> FString \<Rightarrow> EFileState \<times> ETreeState" where
  "AbsentResult env File =
     (EFileState_Unknown,
      if FileExists env File then ETreeState_Unmodified else ETreeState_NotInRepo)"


section \<open>Merge into the state cache\<close>

text \<open>
  Modelled from the spec: the provider's cache of states and its list of files to skip
  at the next forced refresh are in \<^verbatim>\<open>GitSourceControlProvider.cpp\<close>.
  \<^verbatim>\<open>GetStateInternal\<close> returns the cached state of a path and creates it on the
  first query; the states are shared objects, so what \<^verbatim>\<open>UpdateCachedStates\<close> writes
  through the reference is written to the entry of the cache.
  \<^verbatim>\<open>AddFileToIgnoreForceCache\<close> appends to the list.
\<close>

record Provider =
  StateCache :: "FGitSourceControlState TMap"
  IgnoreForceCache :: "FString list"

definition GetStateInternal ::
  "Env \<Rightarrow> FGitSourceControlState TMap \<Rightarrow> FString
   \<Rightarrow> FString \<times> FGitSourceControlState \<times> FGitSourceControlState TMap" where
  "GetStateInternal env Cache InFilename =
     (case Cache (Key InFilename) of
        Some (k0, S) \<Rightarrow> (k0, S, Cache)
      | None \<Rightarrow>
          (InFilename, MakeState env InFilename,
           TMap_Add Cache InFilename (MakeState env InFilename)))"

text \<open>The body of the loop of \<^verbatim>\<open>UpdateCachedStates\<close>, for one pair of \<^verbatim>\<open>InResults\<close>.\<close>

definition MergeState :: "Env \<Rightarrow> int \<Rightarrow> Provider \<Rightarrow> FString \<times> FGitState \<Rightarrow> Provider" where
  "MergeState env Now P InPair =
     (case InPair of (k, NewState) \<Rightarrow>
      case GetStateInternal env (StateCache P) k of
        (k0, S, Cache1) \<Rightarrow>
          if FileState NewState \<noteq> EFileState_Unset
             \<and> FileState NewState = EFileState_Added \<and> \<not> IsUnknown env S \<and> \<not> CanAdd env S
          then P\<lparr>StateCache := Cache1\<rparr>
          else
            (let St0 = State S;
                 St1 = (if FileState NewState \<noteq> EFileState_Unset
                        then St0\<lparr>FileState := FileState NewState\<rparr> else St0);
                 St2 = (if TreeState NewState \<noteq> ETreeState_Unset
                        then St1\<lparr>TreeState := TreeState NewState\<rparr> else St1);
                 St3 = (if LockState NewState \<noteq> ELockState_Unset
                        then St2\<lparr>LockState := LockState NewState, LockUser := LockUser NewState\<rparr>
                        else St2);
                 St4 = (if RemoteState NewState \<noteq> ERemoteState_Unset
                        then St3\<lparr>RemoteState := RemoteState NewState,
                                 HeadBranch := (if RemoteState NewState = ERemoteState_UpToDate
                                                then [] else HeadBranch NewState)\<rparr>
                        else St3);
                 S1 = S\<lparr>State := St4, TimeStamp := Now\<rparr>
             in P\<lparr>StateCache := Cache1(Key k \<mapsto> (k0, S1)),
                  IgnoreForceCache := IgnoreForceCache P @ [LocalFilename S1]\<rparr>))"

text \<open>
  \<^verbatim>\<open>UpdateCachedStates\<close>; \<open>InResults\<close> is the map in the order of its iteration,
  \<open>CurrentTime\<close> what \<^verbatim>\<open>FDateTime::Now()\<close> returns.
\<close>

definition UpdateCachedStates ::
  "Env \<Rightarrow> int \<Rightarrow> (FString \<times> FGitState) list \<Rightarrow> Provider \<Rightarrow> bool \<times> Provider" where
  "UpdateCachedStates env CurrentTime InResults P =
     (if InResults = [] then (False, P)
      else if \<not> ModuleLoaded env then (False, P)
      else (True, foldl (MergeState env (if UsesCheckout env then CurrentTime else 0)) P
                    InResults))"


section \<open>Concrete surroundings\<close>

text \<open>
  An environment, a state and inputs to run the functions on: a gateway whose commands
  all succeed with no output, a gateway whose commands all fail, and a list of 120
  files.
\<close>

definition QuietGit :: Gateway where
  "QuietGit calls c = (True, [], [])"

definition FailingGit :: Gateway where
  "FailingGit calls c = (False, [], ''fatal: unable to access remote'')"

definition SampleState :: "FString \<Rightarrow> FGitSourceControlState" where
  "SampleState f =
     \<lparr>LocalFilename = f,
      State = \<lparr>FileState = EFileState_Unknown, TreeState = ETreeState_NotInRepo,
               LockState = ELockState_Unset, LockUser = [], RemoteState = ERemoteState_UpToDate,
               HeadBranch = []\<rparr>,
      PendingResolveInfo = \<lparr>BaseFile = [], BaseRevision = [], RemoteFile = [],
                            RemoteRevision = []\<rparr>,
      TimeStamp = 0\<rparr>"

definition SampleEnv :: Env where
  "SampleEnv =
     \<lparr>Git = QuietGit, GetLockUser = ''alice'', UsesCheckout = True, ModuleLoaded = True,
      LFSLockBinary = ''git-lfs'',
      ConvertRelativePathToFull = (\<lambda>root p. root @ ''/'' @ p),
      FileExists = (\<lambda>p. p = ''/repo/Content/B.uasset''),
      LockableTypes = [''.uasset'', ''.umap''],
      MakeState = SampleState,
      IsConflicted = (\<lambda>s. FileState (State s) = EFileState_Unmerged),
      IsUnknown = (\<lambda>s. FileState (State s) = EFileState_Unknown
                          \<and> TreeState (State s) = ETreeState_NotInRepo),
      CanAdd = (\<lambda>s. TreeState (State s) = ETreeState_Untracked),
      UnassignedFileState = (\<lambda>line. EFileState_Unset),
      UnassignedTreeState = (\<lambda>line. ETreeState_Unset)\<rparr>"

definition World0 :: World where
  "World0 = \<lparr>Calls = [], LastUpdated = 0, LockedFiles = Map.empty, ReadOnly = Map.empty\<rparr>"

definition Files120 :: "FString list" where
  "Files120 = replicate 120 ''Content/Maps/Level.umap''"

text \<open>A gateway that answers every \<^verbatim>\<open>locks\<close> command with two locks.\<close>

definition LockLineA :: FString where
  "LockLineA = ''Content/A.uasset'' @ [Tab] @ ''alice'' @ [Tab] @ ''ID:1''"

definition LockLineB :: FString where
  "LockLineB = ''Content/B.uasset'' @ [Tab] @ ''bob'' @ [Tab] @ ''ID:2''"

definition LocksGit :: Gateway where
  "LocksGit calls c =
     (if Command c = ''locks''
      then (True, LockLineA @ [Newline] @ LockLineB @ [Newline], [])
      else (True, [], []))"

definition LocksEnv :: Env where
  "LocksEnv = SampleEnv\<lparr>Git := LocksGit\<rparr>"

definition OfflineEnv :: Env where
  "OfflineEnv = SampleEnv\<lparr>Git := FailingGit\<rparr>"

definition LockedByBob :: "FString TMap" where
  "LockedByBob = TMap_Add Map.empty ''/repo/Content/C.uasset'' ''bob''"

text \<open>
  A cache that holds \<^verbatim>\<open>Content/A.uasset\<close> as modified and staged, and a fragment that
  proposes \<^verbatim>\<open>Added\<close>.
\<close>

definition ModifiedA :: FGitSourceControlState where
  "ModifiedA =
     (SampleState ''Content/A.uasset'')
       \<lparr>State := (State (SampleState ''Content/A.uasset''))
          \<lparr>FileState := EFileState_Modified, TreeState := ETreeState_Staged\<rparr>\<rparr>"

definition CacheWithModifiedA :: Provider where
  "CacheWithModifiedA =
     \<lparr>StateCache = TMap_Add Map.empty ''Content/A.uasset'' ModifiedA, IgnoreForceCache = []\<rparr>"

definition AddedFragment :: FGitState where
  "AddedFragment =
     \<lparr>FileState = EFileState_Added, TreeState = ETreeState_Staged, LockState = ELockState_Unset,
      LockUser = [], RemoteState = ERemoteState_Unset, HeadBranch = []\<rparr>"


section \<open>Properties of the status line parser\<close>

lemma StatusParser_Cons2:
  "StatusParser (X # Y # path) = Inr (ParseStates X Y)"
  by (simp add: StatusParser_def At_def)

lemma StatusParser_short:
  "length InResult < 2 \<Longrightarrow> StatusParser InResult = Inl IndexOutOfBounds"
  by (cases InResult; cases "tl InResult") (auto simp: StatusParser_def At_def)

text \<open>
  C2. A status line whose index or worktree character is \<^verbatim>\<open>'U'\<close>, or whose two
  characters are both \<^verbatim>\<open>'A'\<close> or both \<^verbatim>\<open>'D'\<close>, is parsed to
  \<^verbatim>\<open>FileState = Unmerged\<close> and \<^verbatim>\<open>TreeState = Working\<close>, whatever the other rules
  would give: the result is fixed by the conflict rule alone, so on an \<^verbatim>\<open>AA\<close> line
  the file state is not \<^verbatim>\<open>Added\<close>.
\<close>

theorem conflict_rule_first:
  assumes "X = CHR ''U'' \<or> Y = CHR ''U'' \<or> (X = CHR ''A'' \<and> Y = CHR ''A'')
           \<or> (X = CHR ''D'' \<and> Y = CHR ''D'')"
  shows "StatusParser (X # Y # path) =
           Inr \<lparr>FGitStatusParser.FileState = Some EFileState_Unmerged, FGitStatusParser.TreeState = Some ETreeState_Working\<rparr>"
  using assms by (auto simp: StatusParser_Cons2 ParseStates_def IsConflict_def)

theorem conflict_rule_first_witness:
  "StatusParser ''AA Content/Map.umap'' =
     Inr \<lparr>FGitStatusParser.FileState = Some EFileState_Unmerged, FGitStatusParser.TreeState = Some ETreeState_Working\<rparr>
   \<and> StatusParser ''UD Content/Map.umap'' =
     Inr \<lparr>FGitStatusParser.FileState = Some EFileState_Unmerged, FGitStatusParser.TreeState = Some ETreeState_Working\<rparr>
   \<and> StatusParser ''DD Content/Map.umap'' =
     Inr \<lparr>FGitStatusParser.FileState = Some EFileState_Unmerged, FGitStatusParser.TreeState = Some ETreeState_Working\<rparr>"
  using conflict_rule_first [of "CHR ''A''" "CHR ''A''" "'' Content/Map.umap''"]
    conflict_rule_first [of "CHR ''U''" "CHR ''D''" "'' Content/Map.umap''"]
    conflict_rule_first [of "CHR ''D''" "CHR ''D''" "'' Content/Map.umap''"]
  by simp

text \<open>
  C10. The parser is partial: a line of fewer than two characters stops at the checked
  \<^verbatim>\<open>operator[]\<close>. And on a line whose two status characters are both different
  from a space and which is no conflict, no \<^verbatim>\<open>'?'\<close> and no \<^verbatim>\<open>'!'\<close> line, the
  constructor assigns \<^verbatim>\<open>FileState\<close> and never assigns \<^verbatim>\<open>TreeState\<close>. The state
  assigned is \<^verbatim>\<open>Modified\<close> when one of the two characters is \<^verbatim>\<open>'M'\<close> and none of
  the rules for \<^verbatim>\<open>'A'\<close> and \<^verbatim>\<open>'D'\<close> comes first, as on the line \<^verbatim>\<open>MM path\<close>.
\<close>

theorem parser_partial_tree_state_unassigned:
  "(length InResult < 2 \<longrightarrow> StatusParser InResult = Inl IndexOutOfBounds)
   \<and> (X \<noteq> CHR '' '' \<and> Y \<noteq> CHR '' '' \<and> \<not> IsConflict X Y
        \<and> X \<noteq> CHR ''?'' \<and> Y \<noteq> CHR ''?'' \<and> X \<noteq> CHR ''!'' \<and> Y \<noteq> CHR ''!''
      \<longrightarrow> (\<exists>fs. StatusParser (X # Y # path) =
                  Inr \<lparr>FGitStatusParser.FileState = Some fs, FGitStatusParser.TreeState = None\<rparr>
               \<and> (fs = EFileState_Modified \<longleftrightarrow>
                    (X = CHR ''M'' \<or> Y = CHR ''M'')
                    \<and> X \<noteq> CHR ''A'' \<and> X \<noteq> CHR ''D'' \<and> Y \<noteq> CHR ''D'')))
   \<and> StatusParser ''MM path'' =
        Inr \<lparr>FGitStatusParser.FileState = Some EFileState_Modified, FGitStatusParser.TreeState = None\<rparr>"
proof (intro conjI impI)
  assume "length InResult < 2"
  then show "StatusParser InResult = Inl IndexOutOfBounds"
    by (rule StatusParser_short)
next
  assume "X \<noteq> CHR '' '' \<and> Y \<noteq> CHR '' '' \<and> \<not> IsConflict X Y
        \<and> X \<noteq> CHR ''?'' \<and> Y \<noteq> CHR ''?'' \<and> X \<noteq> CHR ''!'' \<and> Y \<noteq> CHR ''!''"
  then show "\<exists>fs. StatusParser (X # Y # path) =
                  Inr \<lparr>FGitStatusParser.FileState = Some fs, FGitStatusParser.TreeState = None\<rparr>
               \<and> (fs = EFileState_Modified \<longleftrightarrow>
                    (X = CHR ''M'' \<or> Y = CHR ''M'')
                    \<and> X \<noteq> CHR ''A'' \<and> X \<noteq> CHR ''D'' \<and> Y \<noteq> CHR ''D'')"
    by (simp add: StatusParser_Cons2 ParseStates_def)
next
  show "StatusParser ''MM path'' =
        Inr \<lparr>FGitStatusParser.FileState = Some EFileState_Modified, FGitStatusParser.TreeState = None\<rparr>"
    by (simp add: StatusParser_Cons2 ParseStates_def IsConflict_def)
qed

theorem parser_partial_tree_state_unassigned_witness:
  "StatusParser ''M'' = Inl IndexOutOfBounds
   \<and> StatusParser [] = Inl IndexOutOfBounds
   \<and> StatusParser ''AM Source/Game.cpp'' =
        Inr \<lparr>FGitStatusParser.FileState = Some EFileState_Added, FGitStatusParser.TreeState = None\<rparr>
   \<and> StatusParser ''MM path'' =
        Inr \<lparr>FGitStatusParser.FileState = Some EFileState_Modified, FGitStatusParser.TreeState = None\<rparr>"
  using parser_partial_tree_state_unassigned [of "''M''" "CHR ''A''" "CHR ''M''" "'' Source/Game.cpp''"]
    parser_partial_tree_state_unassigned [of "[]" "CHR ''A''" "CHR ''M''" "'' Source/Game.cpp''"]
  by (simp add: IsConflict_def StatusParser_Cons2 ParseStates_def)

text \<open>
  Path extraction on the lines \<^verbatim>\<open>FilenameFromGitStatus\<close> is written for: without any
  \<^verbatim>\<open>'>'\<close> the path is what follows the first three characters, and on a rename
  whose destination has no \<^verbatim>\<open>'>'\<close> it is the destination, both with the quotes
  trimmed.
\<close>

lemma FindLastChar_None_iff: "FindLastChar s c = None \<longleftrightarrow> c \<notin> set s"
  by (induction s) (auto split: option.splits)

lemma FindLastChar_last:
  "c \<notin> set post \<Longrightarrow> FindLastChar (pre @ c # post) c = Some (length pre)"
  by (induction pre) (auto simp: FindLastChar_None_iff[THEN iffD2] split: option.splits)

lemma FilenameFromGitStatus_plain:
  assumes "CHR ''>'' \<notin> set line"
  shows "FilenameFromGitStatus line = TrimQuotes (drop 3 line)"
  using assms
  by (simp add: FilenameFromGitStatus_def RightChop_def FindLastChar_None_iff[THEN iffD2])

lemma FilenameFromGitStatus_rename:
  assumes "CHR ''>'' \<notin> set to"
  shows "FilenameFromGitStatus (X # Y # CHR '' '' # from @ '' -> '' @ to) = TrimQuotes to"
proof -
  define pre where "pre = X # Y # CHR '' '' # from @ '' -''"
  define line where "line = X # Y # CHR '' '' # from @ '' -> '' @ to"
  have line: "line = pre @ CHR ''>'' # (CHR '' '' # to)"
    by (simp add: line_def pre_def)
  have "CHR ''>'' \<notin> set (CHR '' '' # to)"
    using assms by simp
  then have find: "FindLastChar line (CHR ''>'') = Some (length pre)"
    unfolding line by (rule FindLastChar_last)
  have chop: "RightChop line (int (length pre) + 2) = to"
    by (simp add: RightChop_def line nat_add_distrib)
  have "FilenameFromGitStatus line = TrimQuotes to"
    by (simp add: FilenameFromGitStatus_def find chop)
  then show ?thesis
    by (simp only: line_def)
qed
text \<open>
  C8. The line \<^verbatim>\<open>M  a>b.txt\<close> has no rename arrow, and what follows its
  three-character prefix is \<^verbatim>\<open>a>b.txt\<close>; \<^verbatim>\<open>FilenameFromGitStatus\<close> takes the
  \<^verbatim>\<open>'>'\<close> of the file name for the arrow and returns \<^verbatim>\<open>.txt\<close>. On the rename line
  of the example it returns \<^verbatim>\<open>a/c.txt\<close>.
\<close>

theorem FilenameFromGitStatus_greater_sign:
  "FilenameFromGitStatus ''M  a>b.txt'' = ''.txt''
   \<and> RightChop ''M  a>b.txt'' 3 = ''a>b.txt''
   \<and> FilenameFromGitStatus ''R  a/b.txt -> a/c.txt'' = ''a/c.txt''"
  by (simp add: FilenameFromGitStatus_def RightChop_def TrimQuotes_def Quote_def)

section \<open>Properties of the redundant error filter\<close>

lemma MoveRedundant_eq:
  "MoveRedundant f es (I, b) =
     (I @ filter (\<lambda>e. Contains e f) es, b \<or> (\<exists>e\<in>set es. Contains e f))"
  by (induction es arbitrary: I b) auto

lemma Contains_prefix: "Contains (f @ post) f"
proof (cases "f @ post")
  case Nil
  then show ?thesis by simp
next
  case (Cons a list)
  then have "take (length f) (a # list) = f"
    by (metis append_eq_conv_conj)
  then have "Contains (a # list) f"
    by simp
  with Cons show ?thesis
    by simp
qed

lemma Contains_sublist: "Contains (pre @ f @ post) f"
proof (induction pre)
  case Nil
  show ?case using Contains_prefix by simp
next
  case (Cons c pre)
  then show ?case by simp
qed

text \<open>
  C9. \<^verbatim>\<open>RemoveRedundantErrors\<close> appends every error line that contains the filter to
  the informational messages, in order, and removes it from the error messages (a line
  that holds a non-empty filter as a substring, letter for letter, is among them). The success
  flag changes exactly when at least one line was moved, no error is left and the command
  was unsuccessful, and then it becomes true; when no line is moved the flag stays.
\<close>

theorem redundant_errors_reclassified:
  fixes InCommand :: FGitSourceControlCommand and InFilter :: FString
  defines "Errors \<equiv> ErrorMessages (ResultInfo InCommand)"
  defines "Out \<equiv> RemoveRedundantErrors InCommand InFilter"
  shows "InfoMessages (ResultInfo Out) =
           InfoMessages (ResultInfo InCommand) @ filter (\<lambda>e. Contains e InFilter) Errors
         \<and> ErrorMessages (ResultInfo Out) = filter (\<lambda>e. \<not> Contains e InFilter) Errors
         \<and> (\<forall>e \<in> set Errors. InFilter \<noteq> [] \<and> (\<exists>pre post. e = pre @ InFilter @ post) \<longrightarrow>
               e \<in> set (InfoMessages (ResultInfo Out)) \<and> e \<notin> set (ErrorMessages (ResultInfo Out)))
         \<and> (bCommandSuccessful Out \<noteq> bCommandSuccessful InCommand \<longleftrightarrow>
               (\<exists>e \<in> set Errors. Contains e InFilter) \<and> ErrorMessages (ResultInfo Out) = []
               \<and> \<not> bCommandSuccessful InCommand)
         \<and> (bCommandSuccessful Out \<noteq> bCommandSuccessful InCommand \<longrightarrow> bCommandSuccessful Out)
         \<and> ((\<forall>e \<in> set Errors. \<not> Contains e InFilter) \<longrightarrow>
               bCommandSuccessful Out = bCommandSuccessful InCommand)"
  unfolding Out_def Errors_def
  by (auto simp: RemoveRedundantErrors_def MoveRedundant_eq Let_def Contains_sublist)

theorem redundant_errors_reclassified_witness:
  "InfoMessages (ResultInfo (RemoveRedundantErrors
       \<lparr>ResultInfo = \<lparr>InfoMessages = [''done''],
                       ErrorMessages = [''warning: LF will be replaced by CRLF'',
                                        ''WARNING: in the working copy'']\<rparr>,
        bCommandSuccessful = False\<rparr> ''warning: ''))
     = [''done'', ''warning: LF will be replaced by CRLF'', ''WARNING: in the working copy'']
   \<and> ErrorMessages (ResultInfo (RemoveRedundantErrors
       \<lparr>ResultInfo = \<lparr>InfoMessages = [''done''],
                       ErrorMessages = [''warning: LF will be replaced by CRLF'',
                                        ''WARNING: in the working copy'']\<rparr>,
        bCommandSuccessful = False\<rparr> ''warning: '')) = []
   \<and> bCommandSuccessful (RemoveRedundantErrors
       \<lparr>ResultInfo = \<lparr>InfoMessages = [''done''],
                       ErrorMessages = [''warning: LF will be replaced by CRLF'',
                                        ''WARNING: in the working copy'']\<rparr>,
        bCommandSuccessful = False\<rparr> ''warning: '')
   \<and> \<not> bCommandSuccessful (RemoveRedundantErrors
       \<lparr>ResultInfo = \<lparr>InfoMessages = [], ErrorMessages = [''fatal: not a git repository'']\<rparr>,
        bCommandSuccessful = False\<rparr> ''warning: '')"
  using redundant_errors_reclassified
    [of "\<lparr>ResultInfo = \<lparr>InfoMessages = [''done''],
                       ErrorMessages = [''warning: LF will be replaced by CRLF'',
                                        ''WARNING: in the working copy'']\<rparr>,
        bCommandSuccessful = False\<rparr>" "''warning: ''"]
    redundant_errors_reclassified
    [of "\<lparr>ResultInfo = \<lparr>InfoMessages = [], ErrorMessages = [''fatal: not a git repository'']\<rparr>,
        bCommandSuccessful = False\<rparr>" "''warning: ''"]
  by (simp add: ToLower_def)

section \<open>Properties of the history parser\<close>

lemma NumberRevision_update:
  "hist ! i < length H \<Longrightarrow> NumberRevision hist H i =
     H[hist ! i := (H ! (hist ! i))
        \<lparr>RevisionNumber := int (length hist) - int i,
         BranchSource :=
           (if FStringEq (Action (H ! (hist ! i))) ''branch'' \<and> i + 1 < length hist
            then Some (hist ! (i + 1)) else BranchSource (H ! (hist ! i)))\<rparr>]"
  by (auto simp: NumberRevision_def Let_def)

lemma NumberRevision_length [simp]: "length (NumberRevision hist H i) = length H"
  by (simp add: NumberRevision_def Let_def)

lemma NumberRevisions_prefix:
  assumes ok: "HistOk H hist" and k: "k \<le> length hist"
  defines "H' \<equiv> foldl (NumberRevision hist) H [0 ..< k]"
  shows "length H' = length H
         \<and> (\<forall>i < length hist.
               Action (H' ! (hist ! i)) = Action (H ! (hist ! i))
               \<and> (k \<le> i \<longrightarrow> H' ! (hist ! i) = H ! (hist ! i))
               \<and> (i < k \<longrightarrow>
                    RevisionNumber (H' ! (hist ! i)) = int (length hist) - int i
                    \<and> BranchSource (H' ! (hist ! i)) =
                        (if FStringEq (Action (H ! (hist ! i))) ''branch'' \<and> i + 1 < length hist
                         then Some (hist ! (i + 1)) else BranchSource (H ! (hist ! i)))))"
  using k unfolding H'_def
proof (induction k)
  case 0
  show ?case by simp
next
  case (Suc k)
  let ?Hk = "foldl (NumberRevision hist) H [0 ..< k]"
  have IH: "length ?Hk = length H
         \<and> (\<forall>i < length hist.
               Action (?Hk ! (hist ! i)) = Action (H ! (hist ! i))
               \<and> (k \<le> i \<longrightarrow> ?Hk ! (hist ! i) = H ! (hist ! i))
               \<and> (i < k \<longrightarrow>
                    RevisionNumber (?Hk ! (hist ! i)) = int (length hist) - int i
                    \<and> BranchSource (?Hk ! (hist ! i)) =
                        (if FStringEq (Action (H ! (hist ! i))) ''branch'' \<and> i + 1 < length hist
                         then Some (hist ! (i + 1)) else BranchSource (H ! (hist ! i)))))"
    using Suc by simp
  have klt: "k < length hist" using Suc.prems by simp
  have step: "foldl (NumberRevision hist) H [0 ..< Suc k] = NumberRevision hist ?Hk k"
    by simp
  have addr: "hist ! k < length ?Hk"
    using ok klt IH by (simp add: HistOk_def)
  have neq: "\<And>i. i < length hist \<Longrightarrow> i \<noteq> k \<Longrightarrow> hist ! i \<noteq> hist ! k"
    using ok klt by (simp add: HistOk_def nth_eq_iff_index_eq)
  show ?case
    unfolding step
  proof (intro conjI allI impI)
    show "length (NumberRevision hist ?Hk k) = length H"
      using IH by simp
  next
    fix i assume i: "i < length hist"
    show "Action (NumberRevision hist ?Hk k ! (hist ! i)) = Action (H ! (hist ! i))"
      using IH i addr neq[of i] klt
      by (cases "i = k") (simp_all add: NumberRevision_update)
  next
    fix i assume i: "i < length hist" and "Suc k \<le> i"
    then show "NumberRevision hist ?Hk k ! (hist ! i) = H ! (hist ! i)"
      using IH addr neq[of i] by (simp add: NumberRevision_update)
  next
    fix i assume i: "i < length hist" and "i < Suc k"
    then show "RevisionNumber (NumberRevision hist ?Hk k ! (hist ! i)) = int (length hist) - int i"
      using IH addr neq[of i] klt
      by (cases "i = k") (simp_all add: NumberRevision_update)
  next
    fix i assume i: "i < length hist" and "i < Suc k"
    then show "BranchSource (NumberRevision hist ?Hk k ! (hist ! i)) =
                 (if FStringEq (Action (H ! (hist ! i))) ''branch'' \<and> i + 1 < length hist
                  then Some (hist ! (i + 1)) else BranchSource (H ! (hist ! i)))"
      using IH addr neq[of i] klt
      by (cases "i = k") (simp_all add: NumberRevision_update)
  qed
qed

lemma ParseLogLine_cases:
  assumes "Cur < length H" and "Result \<noteq> []"
  obtains
    (commit_same) r where "IsCommitLine Result" "RevisionNumber (H ! Cur) = 0"
      "ParseLogLine Result (H, hist, Cur) = Inr (H[Cur := r], hist, Cur)"
      "RevisionNumber r = - 1"
  | (commit_new) r where "IsCommitLine Result" "RevisionNumber (H ! Cur) \<noteq> 0"
      "ParseLogLine Result (H, hist, Cur) = Inr (H @ [r], hist @ [Cur], length H)"
      "RevisionNumber r = - 1"
  | (other) r where "\<not> IsCommitLine Result"
      "ParseLogLine Result (H, hist, Cur) = Inr (H[Cur := r], hist, Cur)"
      "RevisionNumber r = RevisionNumber (H ! Cur)"
proof (cases "IsCommitLine Result")
  case True
  show ?thesis
  proof (cases "RevisionNumber (H ! Cur) = 0")
    case zero: True
    show ?thesis
      by (rule commit_same[OF True zero, where r = "(H ! Cur)
                    \<lparr>CommitId := RightChop Result 7, ShortCommitId := Left_str (RightChop Result 7) 8,
                     CommitIdNumber := HexNumber (Left_str (RightChop Result 7) 8),
                     RevisionNumber := - 1\<rparr>"])
         (simp_all add: ParseLogLine_def Let_def True[unfolded IsCommitLine_def] zero)
  next
    case nonzero: False
    show ?thesis
      by (rule commit_new[OF True nonzero, where r = "NewRevision
                    \<lparr>CommitId := RightChop Result 7, ShortCommitId := Left_str (RightChop Result 7) 8,
                     CommitIdNumber := HexNumber (Left_str (RightChop Result 7) 8),
                     RevisionNumber := - 1\<rparr>"])
         (simp_all add: ParseLogLine_def Let_def True[unfolded IsCommitLine_def] nonzero)
  qed
next
  case False
  note nc = False[unfolded IsCommitLine_def]
  have at: "At Result 0 = Inr (hd Result)"
    using assms(2) by (cases Result) (simp_all add: At_def)
  show ?thesis
  proof (cases "StartsWith Result ''Author: ''")
    case True
    show ?thesis
    proof (cases "FindLastChar (RightChop Result 8) (CHR ''<'')")
      case None
      show ?thesis
        by (rule other[OF False, where r = "H ! Cur"])
           (simp_all add: ParseLogLine_def Let_def nc True None)
    next
      case (Some EmailIndex)
      show ?thesis
        by (rule other[OF False, where r = "(H ! Cur)
                 \<lparr>UserName := Left_str (RightChop Result 8) (int EmailIndex - 1)\<rparr>"])
           (simp_all add: ParseLogLine_def Let_def nc True Some)
    qed
  next
    case na: False
    show ?thesis
    proof (cases "StartsWith Result ''Date:   ''")
      case True
      show ?thesis
        by (rule other[OF False, where r = "(H ! Cur)\<lparr>Date := Atoi (RightChop Result 8)\<rparr>"])
           (simp_all add: ParseLogLine_def Let_def nc na True)
    next
      case nd: False
      show ?thesis
      proof (cases "StartsWith Result ''    ''")
        case True
        show ?thesis
          by (rule other[OF False, where r = "(H ! Cur)
                 \<lparr>Description := Description (H ! Cur) @ RightChop Result 4 @ [Newline]\<rparr>"])
             (simp_all add: ParseLogLine_def Let_def nc na nd True)
      next
        case nm: False
        show ?thesis
        proof (cases "FindLastChar Result Tab")
          case None
          show ?thesis
            by (rule other[OF False, where r = "(H ! Cur)\<lparr>Action := LogStatusToString (hd Result)\<rparr>"])
               (simp_all add: ParseLogLine_def Let_def nc na nd nm at None)
        next
          case (Some IdxTab)
          show ?thesis
            by (rule other[OF False, where r = "(H ! Cur)\<lparr>Action := LogStatusToString (hd Result),
                                  Filename := RightChop Result (int IdxTab + 1)\<rparr>"])
               (simp_all add: ParseLogLine_def Let_def nc na nd nm at Some assms(1))
        qed
      qed
    qed
  qed
qed


lemma ParseLogLine_step:
  assumes inv: "LogInv (H, hist, Cur)" and ne: "Result \<noteq> []"
  shows "\<exists>H' ext Cur'. ParseLogLine Result (H, hist, Cur) = Inr (H', hist @ ext, Cur')
           \<and> LogInv (H', hist @ ext, Cur')
           \<and> Seen (H', hist @ ext, Cur') =
               Seen (H, hist, Cur) + (if IsCommitLine Result then 1 else 0)"
proof -
  have cur: "Cur < length H"
    using inv by (simp add: LogInv_def)
  from cur ne show ?thesis
  proof (cases rule: ParseLogLine_cases[where hist = hist])
    case (commit_same r)
    have "ParseLogLine Result (H, hist, Cur) = Inr (H[Cur := r], hist @ [], Cur)"
      using commit_same by simp
    moreover have "LogInv (H[Cur := r], hist @ [], Cur)"
      using inv commit_same(4) by (simp add: LogInv_def HistOk_def)
    moreover have "Seen (H[Cur := r], hist @ [], Cur) = Seen (H, hist, Cur) + 1"
      using cur commit_same(2,4) by (simp add: Seen_def)
    ultimately show ?thesis
      using commit_same(1) by (intro exI[where x = "H[Cur := r]"] exI[where x = "[]"] exI[where x = Cur]) simp
  next
    case (commit_new r)
    have "LogInv (H @ [r], hist @ [Cur], length H)"
      using inv commit_new(4) by (auto simp: LogInv_def HistOk_def)
    moreover have "Seen (H @ [r], hist @ [Cur], length H) = Seen (H, hist, Cur) + 1"
      using commit_new(2,4) by (simp add: Seen_def)
    ultimately show ?thesis
      using commit_new(1,3)
      by (intro exI[where x = "H @ [r]"] exI[where x = "[Cur]"] exI[where x = "length H"]) simp
  next
    case (other r)
    have "ParseLogLine Result (H, hist, Cur) = Inr (H[Cur := r], hist @ [], Cur)"
      using other by simp
    moreover have "LogInv (H[Cur := r], hist @ [], Cur)"
      using inv other(3) by (simp add: LogInv_def HistOk_def)
    moreover have "Seen (H[Cur := r], hist @ [], Cur) = Seen (H, hist, Cur)"
      using cur other(3) by (simp add: Seen_def)
    ultimately show ?thesis
      using other(1) by (intro exI[where x = "H[Cur := r]"] exI[where x = "[]"] exI[where x = Cur]) simp
  qed
qed

lemma ParseLogLines_inv:
  assumes "LogInv (H, hist, Cur)" and "[] \<notin> set InResults"
  shows "\<exists>H' ext Cur'. ParseLogLines InResults (H, hist, Cur) = Inr (H', hist @ ext, Cur')
           \<and> LogInv (H', hist @ ext, Cur')
           \<and> Seen (H', hist @ ext, Cur') =
               Seen (H, hist, Cur) + length (filter IsCommitLine InResults)"
  using assms
proof (induction InResults arbitrary: H hist Cur)
  case Nil
  then show ?case
    by (intro exI[where x = H] exI[where x = "[]"] exI[where x = Cur]) simp
next
  case (Cons Result rest)
  from Cons.prems have ne: "Result \<noteq> []" and rest: "[] \<notin> set rest" by auto
  from ParseLogLine_step[OF Cons.prems(1) ne]
  obtain H1 ext1 Cur1 where
    s1: "ParseLogLine Result (H, hist, Cur) = Inr (H1, hist @ ext1, Cur1)"
    and i1: "LogInv (H1, hist @ ext1, Cur1)"
    and n1: "Seen (H1, hist @ ext1, Cur1) = Seen (H, hist, Cur) + (if IsCommitLine Result then 1 else 0)"
    by blast
  from Cons.IH[OF i1 rest]
  obtain H2 ext2 Cur2 where
    s2: "ParseLogLines rest (H1, hist @ ext1, Cur1) = Inr (H2, (hist @ ext1) @ ext2, Cur2)"
    and i2: "LogInv (H2, (hist @ ext1) @ ext2, Cur2)"
    and n2: "Seen (H2, (hist @ ext1) @ ext2, Cur2) =
               Seen (H1, hist @ ext1, Cur1) + length (filter IsCommitLine rest)"
    by blast
  have "ParseLogLines (Result # rest) (H, hist, Cur) = Inr (H2, hist @ (ext1 @ ext2), Cur2)"
    using s1 s2 by simp
  moreover have "LogInv (H2, hist @ (ext1 @ ext2), Cur2)"
    using i2 by simp
  moreover have "Seen (H2, hist @ (ext1 @ ext2), Cur2) =
                   Seen (H, hist, Cur) + length (filter IsCommitLine (Result # rest))"
    using n1 n2 by simp
  ultimately show ?case by blast
qed

lemma RenameLog_parsed:
  "ParseLogResults RenameLog ([], []) =
     Inr ([\<lparr>CommitId = ''97a4e7626681895e073aaefd68b8ac087db81b0b'',
            ShortCommitId = ''97a4e762'', CommitIdNumber = 0x97a4e762,
            RevisionNumber = 2, UserName = ''Sebastien Rombauts'', Date = 1431718347,
            Description = ''Rename x to y'' @ [Newline], Action = ''branch'',
            Filename = ''y.txt'', BranchSource = Some 1\<rparr>,
           \<lparr>CommitId = ''355f0df26ebd3888adbb558fd42bb8bd3e565000'',
            ShortCommitId = ''355f0df2'', CommitIdNumber = 0x355f0df2,
            RevisionNumber = 1, UserName = ''Sebastien Rombauts'', Date = 1431429294,
            Description = ''Add x'' @ [Newline], Action = ''add'', Filename = ''x.txt'',
            BranchSource = None\<rparr>],
          [0, 1])"
  by code_simp

text \<open>
  C5. For a log without empty lines (\<^verbatim>\<open>ParseIntoArray\<close> culls them), appended to a
  history of distinct allocated revisions, \<^verbatim>\<open>ParseLogResults\<close> returns, adds one
  record for every \<^verbatim>\<open>commit\<close> line, in the order of the log, and numbers the records
  of the resulting history downwards: the record at index \<open>i\<close> gets
  \<^verbatim>\<open>OutHistory.Num() - i\<close>, so with an empty history on entry the first record gets
  the number of records and the last gets 1. Every record whose action is \<^verbatim>\<open>branch\<close>
  and that has a successor in the history points to that successor with
  \<^verbatim>\<open>BranchSource\<close>. On the log of the example the two revisions are numbered 2 and
  1, the first is a \<^verbatim>\<open>branch\<close> of \<^verbatim>\<open>y.txt\<close>, and its origin is the second.
\<close>

theorem history_ordinals_and_origin:
  assumes lines: "[] \<notin> set InResults"
    and hist0: "distinct OutHistory0" "\<forall>a \<in> set OutHistory0. a < length H0"
  shows "(\<exists>H OutHistory.
           ParseLogResults InResults (H0, OutHistory0) = Inr (H, OutHistory)
           \<and> take (length OutHistory0) OutHistory = OutHistory0
           \<and> length OutHistory = length OutHistory0 + length (filter IsCommitLine InResults)
           \<and> distinct OutHistory
           \<and> (\<forall>i < length OutHistory.
                 OutHistory ! i < length H
                 \<and> RevisionNumber (H ! (OutHistory ! i)) = int (length OutHistory) - int i
                 \<and> (FStringEq (Action (H ! (OutHistory ! i))) ''branch'' \<and> i + 1 < length OutHistory
                      \<longrightarrow> BranchSource (H ! (OutHistory ! i)) = Some (OutHistory ! (i + 1)))))
         \<and> (case ParseLogResults RenameLog ([], []) of
               Inl e \<Rightarrow> False
             | Inr (H, OutHistory) \<Rightarrow>
                 map (\<lambda>a. RevisionNumber (H ! a)) OutHistory = [2, 1]
                 \<and> map (\<lambda>a. Action (H ! a)) OutHistory = [''branch'', ''add'']
                 \<and> map (\<lambda>a. Filename (H ! a)) OutHistory = [''y.txt'', ''x.txt'']
                 \<and> BranchSource (H ! (OutHistory ! 0)) = Some (OutHistory ! 1))"
proof -
  let ?st0 = "(H0 @ [NewRevision], OutHistory0, length H0)"
  have inv0: "LogInv ?st0"
    using hist0 by (auto simp: LogInv_def HistOk_def NewRevision_def)
  have seen0: "Seen ?st0 = length OutHistory0"
    by (simp add: Seen_def NewRevision_def)
  from ParseLogLines_inv[OF inv0 lines]
  obtain H1 ext Cur where
    run: "ParseLogLines InResults ?st0 = Inr (H1, OutHistory0 @ ext, Cur)"
    and inv: "LogInv (H1, OutHistory0 @ ext, Cur)"
    and seen: "Seen (H1, OutHistory0 @ ext, Cur) =
                 Seen ?st0 + length (filter IsCommitLine InResults)"
    by blast
  define hist where
    "hist = (if RevisionNumber (H1 ! Cur) \<noteq> 0 then (OutHistory0 @ ext) @ [Cur] else OutHistory0 @ ext)"
  define H where "H = foldl (NumberRevision hist) H1 [0 ..< length hist]"
  have res: "ParseLogResults InResults (H0, OutHistory0) = Inr (H, hist)"
    using run by (simp add: ParseLogResults_def H_def hist_def Let_def)
  have ok: "HistOk H1 hist"
    using inv by (auto simp: LogInv_def HistOk_def hist_def)
  have len: "length hist = length OutHistory0 + length (filter IsCommitLine InResults)"
    using seen seen0 by (auto simp: Seen_def hist_def split: if_splits)
  have pre: "take (length OutHistory0) hist = OutHistory0"
    by (simp add: hist_def)
  from NumberRevisions_prefix[OF ok order_refl]
  have num: "length H = length H1"
    "\<And>i. i < length hist \<Longrightarrow> Action (H ! (hist ! i)) = Action (H1 ! (hist ! i))"
    "\<And>i. i < length hist \<Longrightarrow> RevisionNumber (H ! (hist ! i)) = int (length hist) - int i"
    "\<And>i. i < length hist \<Longrightarrow> BranchSource (H ! (hist ! i)) =
            (if FStringEq (Action (H1 ! (hist ! i))) ''branch'' \<and> i + 1 < length hist
             then Some (hist ! (i + 1)) else BranchSource (H1 ! (hist ! i)))"
    unfolding H_def by simp_all
  have "\<forall>i < length hist.
          hist ! i < length H
          \<and> RevisionNumber (H ! (hist ! i)) = int (length hist) - int i
          \<and> (FStringEq (Action (H ! (hist ! i))) ''branch'' \<and> i + 1 < length hist
               \<longrightarrow> BranchSource (H ! (hist ! i)) = Some (hist ! (i + 1)))"
    using ok num by (simp add: HistOk_def)
  with res pre len ok have general: "\<exists>H OutHistory.
           ParseLogResults InResults (H0, OutHistory0) = Inr (H, OutHistory)
           \<and> take (length OutHistory0) OutHistory = OutHistory0
           \<and> length OutHistory = length OutHistory0 + length (filter IsCommitLine InResults)
           \<and> distinct OutHistory
           \<and> (\<forall>i < length OutHistory.
                 OutHistory ! i < length H
                 \<and> RevisionNumber (H ! (OutHistory ! i)) = int (length OutHistory) - int i
                 \<and> (FStringEq (Action (H ! (OutHistory ! i))) ''branch'' \<and> i + 1 < length OutHistory
                      \<longrightarrow> BranchSource (H ! (OutHistory ! i)) = Some (OutHistory ! (i + 1))))"
    unfolding HistOk_def by blast
  have example: "(case ParseLogResults RenameLog ([], []) of
               Inl e \<Rightarrow> False
             | Inr (H, OutHistory) \<Rightarrow>
                 map (\<lambda>a. RevisionNumber (H ! a)) OutHistory = [2, 1]
                 \<and> map (\<lambda>a. Action (H ! a)) OutHistory = [''branch'', ''add'']
                 \<and> map (\<lambda>a. Filename (H ! a)) OutHistory = [''y.txt'', ''x.txt'']
                 \<and> BranchSource (H ! (OutHistory ! 0)) = Some (OutHistory ! 1))"
    by (simp add: RenameLog_parsed)
  from general example show ?thesis by (rule conjI)
qed

theorem history_ordinals_and_origin_witness:
  "\<exists>H OutHistory.
     ParseLogResults RenameLog ([], []) = Inr (H, OutHistory)
     \<and> length OutHistory = 2
     \<and> RevisionNumber (H ! (OutHistory ! 0)) = 2
     \<and> RevisionNumber (H ! (OutHistory ! 1)) = 1
     \<and> Action (H ! (OutHistory ! 0)) = ''branch''
     \<and> Filename (H ! (OutHistory ! 0)) = ''y.txt''
     \<and> BranchSource (H ! (OutHistory ! 0)) = Some (OutHistory ! 1)
     \<and> Action (H ! (OutHistory ! 1)) = ''add''"
proof -
  have lines: "[] \<notin> set RenameLog"
    by (simp add: RenameLog_def)
  from history_ordinals_and_origin[OF lines, of "[]" "[]", THEN conjunct1]
  obtain H OutHistory where
    res: "ParseLogResults RenameLog ([], []) = Inr (H, OutHistory)"
    and len: "length OutHistory = length (filter IsCommitLine RenameLog)"
    and ords: "\<forall>i < length OutHistory.
                 RevisionNumber (H ! (OutHistory ! i)) = int (length OutHistory) - int i
                 \<and> (FStringEq (Action (H ! (OutHistory ! i))) ''branch'' \<and> i + 1 < length OutHistory
                      \<longrightarrow> BranchSource (H ! (OutHistory ! i)) = Some (OutHistory ! (i + 1)))"
    by auto
  have n: "length (filter IsCommitLine RenameLog) = 2"
    by (simp add: RenameLog_def IsCommitLine_def StartsWith_def ToLower_def Tab_def)
  have acts: "Action (H ! (OutHistory ! 0)) = ''branch''" "Filename (H ! (OutHistory ! 0)) = ''y.txt''"
    "Action (H ! (OutHistory ! 1)) = ''add''"
    using res unfolding RenameLog_parsed by auto
  from ords len n have "RevisionNumber (H ! (OutHistory ! 0)) = 2"
    "RevisionNumber (H ! (OutHistory ! 1)) = 1"
    "FStringEq (Action (H ! (OutHistory ! 0))) ''branch'' \<longrightarrow> BranchSource (H ! (OutHistory ! 0)) = Some (OutHistory ! 1)"
    by (auto elim!: allE[where x = 0] allE[where x = 1], auto elim!: allE[where x = 1])
  with res len n acts show ?thesis by (auto simp: FStringEq_def)
qed

section \<open>Properties of the batch splitter\<close>

declare RunBatches.simps [simp del]
declare AmendBatches.simps [simp del]

lemma RunCommandInternal_calls:
  "Calls (snd (RunCommandInternal env c w)) = Calls w @ [c]"
  by (simp add: RunCommandInternal_def split: prod.splits)

lemma RunBatches_unfold:
  "FileCount < length (Files c) \<Longrightarrow>
   RunBatches env c FileCount acc w =
     (let batch = take MaxFilesPerBatch (drop FileCount (Files c));
          r = RunCommandInternal env (c\<lparr>Files := batch\<rparr>) w
      in RunBatches env c (FileCount + length batch)
           (fst acc \<and> fst (fst r), fst (snd acc) @ fst (snd (fst r)),
            snd (snd acc) @ snd (snd (fst r))) (snd r))"
  by (subst RunBatches.simps) (simp add: Let_def split: prod.splits)

lemma RunBatches_stop:
  "\<not> FileCount < length (Files c) \<Longrightarrow> RunBatches env c FileCount acc w = (acc, w)"
  by (subst RunBatches.simps) simp

lemma AmendBatches_unfold:
  "FileCount < length InFiles \<Longrightarrow>
   AmendBatches env bin root Params InFiles FileCount acc w =
     (let batch = take MaxFilesPerBatch (drop FileCount InFiles);
          r1 = RunCommandInternal env
                 \<lparr>Command = ''add'', PathToGitBinary = bin, RepositoryRoot = root,
                  Parameters = [''-A''], Files = batch\<rparr> w;
          r2 = RunCommandInternal env
                 \<lparr>Command = ''commit'', PathToGitBinary = bin, RepositoryRoot = root,
                  Parameters = Params, Files = batch\<rparr> (snd r1)
      in AmendBatches env bin root Params InFiles (FileCount + length batch)
           ((fst acc \<and> fst (fst r1)) \<and> fst (fst r2), fst (snd (fst r1)) @ fst (snd (fst r2)),
            snd (snd (fst r1)) @ snd (snd (fst r2))) (snd r2))"
  by (subst AmendBatches.simps) (simp add: Let_def split: prod.splits)

lemma AmendBatches_stop:
  "\<not> FileCount < length InFiles \<Longrightarrow>
   AmendBatches env bin root Params InFiles FileCount acc w = (acc, w)"
  by (subst AmendBatches.simps) simp

lemma RunCommit_unfold:
  "MaxFilesPerBatch < length InFiles \<Longrightarrow>
   RunCommit env bin root InParameters InFiles w =
     (let batch = take MaxFilesPerBatch InFiles;
          r1 = RunCommandInternal env
                 \<lparr>Command = ''add'', PathToGitBinary = bin, RepositoryRoot = root,
                  Parameters = [''-A''], Files = batch\<rparr> w;
          r2 = RunCommandInternal env
                 \<lparr>Command = ''commit'', PathToGitBinary = bin, RepositoryRoot = root,
                  Parameters = InParameters, Files = batch\<rparr> (snd r1)
      in AmendBatches env bin root (InParameters @ [''--amend'']) InFiles MaxFilesPerBatch
           (fst (fst r1) \<and> fst (fst r2), fst (snd (fst r2)), snd (snd (fst r2))) (snd r2))"
  by (simp add: RunCommit_def Let_def split: prod.splits)

text \<open>
  C6. With 120 files and the batch limit of 50, \<^verbatim>\<open>RunCommand\<close> runs the command
  three times, on the first 50 files, the next 50 and the last 20, in this order, and
  these batches make up the input list. \<^verbatim>\<open>RunCommit\<close> stages and commits each of
  the same three batches: the commit of the first batch carries the caller's parameters
  only, the commits of the second and the third carry them followed by
  \<^verbatim>\<open>--amend\<close>.
\<close>

theorem batches_of_120_files:
  assumes "length InFiles = 120"
  shows "Calls (snd (RunCommand env (c\<lparr>Files := InFiles\<rparr>) out w)) =
           Calls w @ [c\<lparr>Files := take 50 InFiles\<rparr>,
                      c\<lparr>Files := take 50 (drop 50 InFiles)\<rparr>,
                      c\<lparr>Files := drop 100 InFiles\<rparr>]
         \<and> map length [take 50 InFiles, take 50 (drop 50 InFiles), drop 100 InFiles] = [50, 50, 20]
         \<and> take 50 InFiles @ take 50 (drop 50 InFiles) @ drop 100 InFiles = InFiles
         \<and> Calls (snd (RunCommit env bin root InParameters InFiles w)) =
           Calls w @
             [\<lparr>Command = ''add'', PathToGitBinary = bin, RepositoryRoot = root,
               Parameters = [''-A''], Files = take 50 InFiles\<rparr>,
              \<lparr>Command = ''commit'', PathToGitBinary = bin, RepositoryRoot = root,
               Parameters = InParameters, Files = take 50 InFiles\<rparr>,
              \<lparr>Command = ''add'', PathToGitBinary = bin, RepositoryRoot = root,
               Parameters = [''-A''], Files = take 50 (drop 50 InFiles)\<rparr>,
              \<lparr>Command = ''commit'', PathToGitBinary = bin, RepositoryRoot = root,
               Parameters = InParameters @ [''--amend''], Files = take 50 (drop 50 InFiles)\<rparr>,
              \<lparr>Command = ''add'', PathToGitBinary = bin, RepositoryRoot = root,
               Parameters = [''-A''], Files = drop 100 InFiles\<rparr>,
              \<lparr>Command = ''commit'', PathToGitBinary = bin, RepositoryRoot = root,
               Parameters = InParameters @ [''--amend''], Files = drop 100 InFiles\<rparr>]"
proof (intro conjI)
  show "Calls (snd (RunCommand env (c\<lparr>Files := InFiles\<rparr>) out w)) =
           Calls w @ [c\<lparr>Files := take 50 InFiles\<rparr>,
                      c\<lparr>Files := take 50 (drop 50 InFiles)\<rparr>,
                      c\<lparr>Files := drop 100 InFiles\<rparr>]"
    using assms
    by (simp add: RunCommand_def MaxFilesPerBatch_def RunBatches_unfold RunBatches_stop
        RunCommandInternal_calls Let_def)
next
  show "map length [take 50 InFiles, take 50 (drop 50 InFiles), drop 100 InFiles] = [50, 50, 20]"
    using assms by simp
next
  show "take 50 InFiles @ take 50 (drop 50 InFiles) @ drop 100 InFiles = InFiles"
    by (metis append_take_drop_id drop_drop numeral_Bit0 add.commute append.assoc)
next
  show "Calls (snd (RunCommit env bin root InParameters InFiles w)) =
           Calls w @
             [\<lparr>Command = ''add'', PathToGitBinary = bin, RepositoryRoot = root,
               Parameters = [''-A''], Files = take 50 InFiles\<rparr>,
              \<lparr>Command = ''commit'', PathToGitBinary = bin, RepositoryRoot = root,
               Parameters = InParameters, Files = take 50 InFiles\<rparr>,
              \<lparr>Command = ''add'', PathToGitBinary = bin, RepositoryRoot = root,
               Parameters = [''-A''], Files = take 50 (drop 50 InFiles)\<rparr>,
              \<lparr>Command = ''commit'', PathToGitBinary = bin, RepositoryRoot = root,
               Parameters = InParameters @ [''--amend''], Files = take 50 (drop 50 InFiles)\<rparr>,
              \<lparr>Command = ''add'', PathToGitBinary = bin, RepositoryRoot = root,
               Parameters = [''-A''], Files = drop 100 InFiles\<rparr>,
              \<lparr>Command = ''commit'', PathToGitBinary = bin, RepositoryRoot = root,
               Parameters = InParameters @ [''--amend''], Files = drop 100 InFiles\<rparr>]"
    using assms
    by (simp add: RunCommit_unfold MaxFilesPerBatch_def AmendBatches_unfold AmendBatches_stop
        RunCommandInternal_calls Let_def)
qed

theorem batches_of_120_files_witness:
  "map (\<lambda>c. (Command c, length (Files c)))
       (Calls (snd (RunCommand SampleEnv
          \<lparr>Command = ''add'', PathToGitBinary = ''git'', RepositoryRoot = ''/repo'',
           Parameters = [''-A''], Files = Files120\<rparr> ([], []) World0)))
     = [(''add'', 50), (''add'', 50), (''add'', 20)]
   \<and> map (\<lambda>c. (Command c, Parameters c, length (Files c)))
       (Calls (snd (RunCommit SampleEnv ''git'' ''/repo'' [''-m'', ''msg''] Files120 World0)))
     = [(''add'', [''-A''], 50), (''commit'', [''-m'', ''msg''], 50),
        (''add'', [''-A''], 50), (''commit'', [''-m'', ''msg'', ''--amend''], 50),
        (''add'', [''-A''], 20), (''commit'', [''-m'', ''msg'', ''--amend''], 20)]"
proof -
  have len: "length Files120 = 120"
    by (simp add: Files120_def)
  show ?thesis
    using batches_of_120_files [OF len, of SampleEnv
        "\<lparr>Command = ''add'', PathToGitBinary = ''git'', RepositoryRoot = ''/repo'',
          Parameters = [''-A''], Files = []\<rparr>" "([], [])" World0 "''git''" "''/repo''"
        "[''-m'', ''msg'']"]
    by (simp add: len World0_def)
qed


section \<open>Properties of the lock cache\<close>

lemma RunLFSCommand_no_files:
  "RunLFSCommand env ''locks'' root fb Params [] out w =
     RunCommandInternal env (LocksCall env root Params) w"
  by (simp add: RunLFSCommand_def RunCommand_def LocksCall_def MaxFilesPerBatch_def)

lemma RunCommandInternal_eq:
  "RunCommandInternal env c w =
     ((fst (Git env (Calls w) c),
       ParseIntoArray (fst (snd (Git env (Calls w) c))) Newline True,
       ParseIntoArray (snd (snd (Git env (Calls w) c))) Newline True),
      w\<lparr>Calls := Calls w @ [c]\<rparr>)"
  by (simp add: RunCommandInternal_def split: prod.splits)

lemma GetAllLocks_fast:
  assumes "\<not> bInvalidateCache" and "CurrentTime - LastUpdated w \<le> CacheLimit"
  shows "GetAllLocks env CurrentTime root fb Errs OutLocks bInvalidateCache w =
           ((True, Errs, LockedFiles w), w)"
  using assms by (simp add: GetAllLocks_def)

lemma GetAllLocks_refresh:
  assumes "bInvalidateCache \<or> CacheLimit < CurrentTime - LastUpdated w"
    and "fst (Git env (Calls w) (LocksCall env root []))"
  shows "GetAllLocks env CurrentTime root fb Errs OutLocks bInvalidateCache w =
           ((True,
             ParseIntoArray (snd (snd (Git env (Calls w) (LocksCall env root [])))) Newline True,
             AddLocks env root AllLocks
               (ParseIntoArray (fst (snd (Git env (Calls w) (LocksCall env root [])))) Newline True)
               OutLocks),
            SetLockedFiles env
              (AddLocks env root AllLocks
                 (ParseIntoArray (fst (snd (Git env (Calls w) (LocksCall env root [])))) Newline True)
                 OutLocks)
              (w\<lparr>Calls := Calls w @ [LocksCall env root []], LastUpdated := CurrentTime\<rparr>))"
  using assms
  by (auto simp: GetAllLocks_def RunLFSCommand_no_files RunCommandInternal_eq Let_def)

lemma GetAllLocks_first_call:
  assumes "bInvalidateCache \<or> CacheLimit < CurrentTime - LastUpdated w"
  shows "take (Suc (length (Calls w)))
           (Calls (snd (GetAllLocks env CurrentTime root fb Errs OutLocks bInvalidateCache w)))
         = Calls w @ [LocksCall env root []]"
  using assms
  by (auto simp: GetAllLocks_def RunLFSCommand_no_files RunCommandInternal_eq Let_def
      SetLockedFiles_def)

lemma GetAllLocks_true:
  "fst (fst (GetAllLocks env CurrentTime root fb Errs OutLocks bInvalidateCache w))"
  by (auto simp: GetAllLocks_def Let_def split: prod.splits)

lemma GetAllLocks_degrade:
  assumes "bInvalidateCache \<or> CacheLimit < CurrentTime - LastUpdated w"
    and "\<not> fst (Git env (Calls w) (LocksCall env root []))"
    and "\<not> ModuleLoaded env
         \<or> \<not> fst (Git env (Calls w @ [LocksCall env root []]) (LocksCall env root [''--cached'']))
         \<or> \<not> fst (Git env (Calls w @ [LocksCall env root [], LocksCall env root [''--cached'']])
                      (LocksCall env root [''--local'']))"
  shows "snd (snd (fst (GetAllLocks env CurrentTime root fb Errs OutLocks bInvalidateCache w))) = LockedFiles w"
  and "LockedFiles (snd (GetAllLocks env CurrentTime root fb Errs OutLocks bInvalidateCache w)) = LockedFiles w"
  and "LastUpdated (snd (GetAllLocks env CurrentTime root fb Errs OutLocks bInvalidateCache w)) = LastUpdated w"
  using assms
  by (auto simp: GetAllLocks_def RunLFSCommand_no_files RunCommandInternal_eq Let_def)


text \<open>
  C3. Without \<^verbatim>\<open>bInvalidateCache\<close>, a call of \<^verbatim>\<open>GetAllLocks\<close> made less than 30
  seconds after \<^verbatim>\<open>LastUpdated\<close> returns the cached map and leaves the state as it
  is: no subprocess is run. A call made more than 30 seconds after \<^verbatim>\<open>LastUpdated\<close>
  runs the remote \<^verbatim>\<open>locks\<close> query first; when the query succeeds, the cache becomes
  the locks parsed from its output (added to the caller's map, whatever the cache held
  before), \<^verbatim>\<open>LastUpdated\<close> becomes the current time and no other subprocess is run.
  So of two calls of which the first refreshes from the remote with success and the
  second, not forced, comes less than 30 seconds later, the second returns the map the
  first one cached, and the two together ran one query.
\<close>

theorem lock_cache_refresh_window:
  "(\<not> bInvalidateCache \<and> CurrentTime - LastUpdated w < 30 * TicksPerSecond \<longrightarrow>
      GetAllLocks env CurrentTime root fb Errs OutLocks bInvalidateCache w =
        ((True, Errs, LockedFiles w), w))
   \<and> (30 * TicksPerSecond < CurrentTime - LastUpdated w \<longrightarrow>
        take (Suc (length (Calls w)))
          (Calls (snd (GetAllLocks env CurrentTime root fb Errs OutLocks bInvalidateCache w)))
          = Calls w @ [LocksCall env root []]
        \<and> (fst (Git env (Calls w) (LocksCall env root [])) \<longrightarrow>
             (let Locks = AddLocks env root AllLocks
                            (ParseIntoArray
                               (fst (snd (Git env (Calls w) (LocksCall env root [])))) Newline True)
                            OutLocks;
                  r = GetAllLocks env CurrentTime root fb Errs OutLocks bInvalidateCache w
              in fst (fst r) \<and> snd (snd (fst r)) = Locks \<and> LockedFiles (snd r) = Locks
                 \<and> LastUpdated (snd r) = CurrentTime
                 \<and> Calls (snd r) = Calls w @ [LocksCall env root []])))
   \<and> ((bInvalidateCache \<or> 30 * TicksPerSecond < CurrentTime - LastUpdated w)
        \<and> fst (Git env (Calls w) (LocksCall env root []))
        \<and> NextTime - CurrentTime < 30 * TicksPerSecond \<longrightarrow>
        (let r1 = GetAllLocks env CurrentTime root fb Errs OutLocks bInvalidateCache w;
             r2 = GetAllLocks env NextTime root fb Errs2 OutLocks2 False (snd r1)
         in r2 = ((True, Errs2, LockedFiles (snd r1)), snd r1)
            \<and> LockedFiles (snd r1) = snd (snd (fst r1))
            \<and> Calls (snd r2) = Calls w @ [LocksCall env root []]))"
proof (intro conjI impI)
  assume "\<not> bInvalidateCache \<and> CurrentTime - LastUpdated w < 30 * TicksPerSecond"
  then show "GetAllLocks env CurrentTime root fb Errs OutLocks bInvalidateCache w =
        ((True, Errs, LockedFiles w), w)"
    by (intro GetAllLocks_fast) (simp_all add: CacheLimit_def)
next
  assume "30 * TicksPerSecond < CurrentTime - LastUpdated w"
  then show "take (Suc (length (Calls w)))
          (Calls (snd (GetAllLocks env CurrentTime root fb Errs OutLocks bInvalidateCache w)))
          = Calls w @ [LocksCall env root []]"
    by (intro GetAllLocks_first_call) (simp add: CacheLimit_def)
next
  assume "30 * TicksPerSecond < CurrentTime - LastUpdated w"
    and "fst (Git env (Calls w) (LocksCall env root []))"
  then show "let Locks = AddLocks env root AllLocks
                            (ParseIntoArray
                               (fst (snd (Git env (Calls w) (LocksCall env root [])))) Newline True)
                            OutLocks;
                  r = GetAllLocks env CurrentTime root fb Errs OutLocks bInvalidateCache w
              in fst (fst r) \<and> snd (snd (fst r)) = Locks \<and> LockedFiles (snd r) = Locks
                 \<and> LastUpdated (snd r) = CurrentTime
                 \<and> Calls (snd r) = Calls w @ [LocksCall env root []]"
    by (simp add: GetAllLocks_refresh CacheLimit_def Let_def SetLockedFiles_def)
next
  assume a: "(bInvalidateCache \<or> 30 * TicksPerSecond < CurrentTime - LastUpdated w)
        \<and> fst (Git env (Calls w) (LocksCall env root []))
        \<and> NextTime - CurrentTime < 30 * TicksPerSecond"
  let ?r1 = "GetAllLocks env CurrentTime root fb Errs OutLocks bInvalidateCache w"
  have exp: "bInvalidateCache \<or> CacheLimit < CurrentTime - LastUpdated w"
    using a by (simp add: CacheLimit_def)
  have r1: "LastUpdated (snd ?r1) = CurrentTime" "LockedFiles (snd ?r1) = snd (snd (fst ?r1))"
    "Calls (snd ?r1) = Calls w @ [LocksCall env root []]"
    using a by (simp_all add: GetAllLocks_refresh[OF exp] SetLockedFiles_def)
  have "GetAllLocks env NextTime root fb Errs2 OutLocks2 False (snd ?r1)
          = ((True, Errs2, LockedFiles (snd ?r1)), snd ?r1)"
    using a r1(1) by (intro GetAllLocks_fast) (simp_all add: CacheLimit_def)
  with r1 show "let r1 = ?r1;
             r2 = GetAllLocks env NextTime root fb Errs2 OutLocks2 False (snd r1)
         in r2 = ((True, Errs2, LockedFiles (snd r1)), snd r1)
            \<and> LockedFiles (snd r1) = snd (snd (fst r1))
            \<and> Calls (snd r2) = Calls w @ [LocksCall env root []]"
    by (simp add: Let_def)
qed

text \<open>
  C4. \<^verbatim>\<open>GetAllLocks\<close> returns true on every path. When the cache is expired or
  invalidated, the remote query fails, and the fallback does not succeed (the module is
  not loaded, or the \<^verbatim>\<open>--cached\<close> query or the \<^verbatim>\<open>--local\<close> query fails), the map
  returned is the cache, and the cache is left as it was.
\<close>

theorem lock_cache_never_fails:
  "fst (fst (GetAllLocks env CurrentTime root fb Errs OutLocks bInvalidateCache w))
   \<and> ((bInvalidateCache \<or> CacheLimit < CurrentTime - LastUpdated w)
        \<and> \<not> fst (Git env (Calls w) (LocksCall env root []))
        \<and> (\<not> ModuleLoaded env
            \<or> \<not> fst (Git env (Calls w @ [LocksCall env root []])
                         (LocksCall env root [''--cached'']))
            \<or> \<not> fst (Git env (Calls w @ [LocksCall env root [], LocksCall env root [''--cached'']])
                         (LocksCall env root [''--local''])))
      \<longrightarrow> snd (snd (fst (GetAllLocks env CurrentTime root fb Errs OutLocks bInvalidateCache w)))
            = LockedFiles w
          \<and> LockedFiles (snd (GetAllLocks env CurrentTime root fb Errs OutLocks bInvalidateCache w))
            = LockedFiles w)"
proof (intro conjI impI)
  show "fst (fst (GetAllLocks env CurrentTime root fb Errs OutLocks bInvalidateCache w))"
    by (rule GetAllLocks_true)
next
  assume "(bInvalidateCache \<or> CacheLimit < CurrentTime - LastUpdated w)
        \<and> \<not> fst (Git env (Calls w) (LocksCall env root []))
        \<and> (\<not> ModuleLoaded env
            \<or> \<not> fst (Git env (Calls w @ [LocksCall env root []])
                         (LocksCall env root [''--cached'']))
            \<or> \<not> fst (Git env (Calls w @ [LocksCall env root [], LocksCall env root [''--cached'']])
                         (LocksCall env root [''--local''])))"
  then show "snd (snd (fst (GetAllLocks env CurrentTime root fb Errs OutLocks bInvalidateCache w)))
            = LockedFiles w"
    by (intro GetAllLocks_degrade(1)) simp_all
next
  assume "(bInvalidateCache \<or> CacheLimit < CurrentTime - LastUpdated w)
        \<and> \<not> fst (Git env (Calls w) (LocksCall env root []))
        \<and> (\<not> ModuleLoaded env
            \<or> \<not> fst (Git env (Calls w @ [LocksCall env root []])
                         (LocksCall env root [''--cached'']))
            \<or> \<not> fst (Git env (Calls w @ [LocksCall env root [], LocksCall env root [''--cached'']])
                         (LocksCall env root [''--local''])))"
  then show "LockedFiles (snd (GetAllLocks env CurrentTime root fb Errs OutLocks bInvalidateCache w))
            = LockedFiles w"
    by (intro GetAllLocks_degrade(2)) simp_all
qed




lemma LocksGit_succeeds: "fst (Git LocksEnv calls (LocksCall LocksEnv ''/repo'' []))"
  by (simp add: LocksEnv_def LocksGit_def LocksCall_def)

lemma LocksGit_lines:
  "ParseIntoArray (fst (snd (Git LocksEnv calls (LocksCall LocksEnv ''/repo'' [])))) Newline True
     = [LockLineA, LockLineB]"
proof -
  have "ParseIntoArray (LockLineA @ [Newline] @ LockLineB @ [Newline]) Newline True
          = [LockLineA, LockLineB]"
    by code_simp
  then show ?thesis
    by (simp add: LocksEnv_def LocksGit_def LocksCall_def)
qed

lemma LockLineA_parsed:
  "LfsLocksParser LocksEnv ''/repo'' LockLineA True = (''/repo/Content/A.uasset'', ''alice'')"
  by code_simp

lemma LockLineB_parsed:
  "LfsLocksParser LocksEnv ''/repo'' LockLineB True = (''/repo/Content/B.uasset'', ''bob'')"
  by code_simp

lemma LocksGit_locks:
  "TMap_Find (AddLocks LocksEnv ''/repo'' AllLocks [LockLineA, LockLineB] Map.empty)
     ''/repo/Content/B.uasset'' = Some ''bob''"
  "TMap_Find (AddLocks LocksEnv ''/repo'' AllLocks [LockLineA, LockLineB] Map.empty)
     ''/repo/Content/A.uasset'' = Some ''alice''"
  by (simp_all add: LockLineA_parsed LockLineB_parsed TMap_Find_def TMap_Add_def Key_def ToLower_def)



theorem lock_cache_refresh_window_witness:
  "(let r1 = GetAllLocks LocksEnv (31 * TicksPerSecond) ''/repo'' ''git'' [] Map.empty False World0;
        r2 = GetAllLocks LocksEnv (60 * TicksPerSecond) ''/repo'' ''git'' [] Map.empty False (snd r1)
    in TMap_Find (snd (snd (fst r2))) ''/repo/Content/B.uasset'' = Some ''bob''
       \<and> TMap_Find (snd (snd (fst r2))) ''/repo/Content/A.uasset'' = Some ''alice''
       \<and> length (Calls (snd r1)) = 1 \<and> LastUpdated (snd r1) = 31 * TicksPerSecond
       \<and> snd r2 = snd r1)
   \<and> length (Calls (snd (GetAllLocks LocksEnv (62 * TicksPerSecond) ''/repo'' ''git'' [] Map.empty
                False (World0\<lparr>LastUpdated := 31 * TicksPerSecond\<rparr>)))) = 1"
proof -
  let ?r1 = "GetAllLocks LocksEnv (31 * TicksPerSecond) ''/repo'' ''git'' [] Map.empty False World0"
  let ?r2 = "GetAllLocks LocksEnv (60 * TicksPerSecond) ''/repo'' ''git'' [] Map.empty False (snd ?r1)"
  let ?w3 = "World0\<lparr>LastUpdated := 31 * TicksPerSecond\<rparr>"
  let ?r3 = "GetAllLocks LocksEnv (62 * TicksPerSecond) ''/repo'' ''git'' [] Map.empty False ?w3"
  note T = lock_cache_refresh_window [of False "31 * TicksPerSecond" World0 LocksEnv
      "''/repo''" "''git''" "[]" Map.empty "60 * TicksPerSecond" "[]" Map.empty]
  note T3 = lock_cache_refresh_window [of False "62 * TicksPerSecond" ?w3 LocksEnv
      "''/repo''" "''git''" "[]" Map.empty "62 * TicksPerSecond" "[]" Map.empty]
  have exp1: "30 * TicksPerSecond < 31 * TicksPerSecond - LastUpdated World0"
    by (simp add: World0_def TicksPerSecond_def)
  have near: "60 * TicksPerSecond - 31 * TicksPerSecond < 30 * TicksPerSecond"
    by (simp add: TicksPerSecond_def)
  have exp3: "30 * TicksPerSecond < 62 * TicksPerSecond - LastUpdated ?w3"
    by (simp add: TicksPerSecond_def)
  have pre: "(False \<or> 30 * TicksPerSecond < 31 * TicksPerSecond - LastUpdated World0)
        \<and> fst (Git LocksEnv (Calls World0) (LocksCall LocksEnv ''/repo'' []))
        \<and> 60 * TicksPerSecond - 31 * TicksPerSecond < 30 * TicksPerSecond"
    using exp1 near LocksGit_succeeds by blast
  have r1: "snd (snd (fst ?r1)) = AddLocks LocksEnv ''/repo'' AllLocks [LockLineA, LockLineB] Map.empty
            \<and> LastUpdated (snd ?r1) = 31 * TicksPerSecond
            \<and> Calls (snd ?r1) = Calls World0 @ [LocksCall LocksEnv ''/repo'' []]"
    using T [THEN conjunct2, THEN conjunct1, rule_format, OF exp1, THEN conjunct2, rule_format,
          OF LocksGit_succeeds]
    unfolding Let_def LocksGit_lines by blast
  have r2: "?r2 = ((True, [], LockedFiles (snd ?r1)), snd ?r1)
            \<and> LockedFiles (snd ?r1) = snd (snd (fst ?r1))"
    using T [THEN conjunct2, THEN conjunct2, THEN mp, OF pre]
    unfolding Let_def by blast
  have "Calls (snd ?r3) = Calls ?w3 @ [LocksCall LocksEnv ''/repo'' []]"
    using T3 [THEN conjunct2, THEN conjunct1, rule_format, OF exp3, THEN conjunct2, rule_format,
          OF LocksGit_succeeds]
    unfolding Let_def by blast
  then have r3: "length (Calls (snd ?r3)) = 1"
    by (simp add: World0_def)
  have locks: "snd (snd (fst ?r2)) = AddLocks LocksEnv ''/repo'' AllLocks [LockLineA, LockLineB] Map.empty"
    using r1 r2 by simp
  have calls1: "length (Calls (snd ?r1)) = 1"
    using r1 by (simp add: World0_def)
  show ?thesis
    unfolding Let_def
    using locks calls1 r1 r2 r3 LocksGit_locks by simp
qed

theorem lock_cache_never_fails_witness:
  "(let r = GetAllLocks OfflineEnv (31 * TicksPerSecond) ''/repo'' ''git'' [] Map.empty False
              (World0\<lparr>LockedFiles := LockedByBob\<rparr>)
    in fst (fst r) \<and> snd (snd (fst r)) = LockedByBob \<and> LockedFiles (snd r) = LockedByBob)"
proof -
  let ?w = "World0\<lparr>LockedFiles := LockedByBob\<rparr>"
  have pre: "(False \<or> CacheLimit < 31 * TicksPerSecond - LastUpdated ?w)
        \<and> \<not> fst (Git OfflineEnv (Calls ?w) (LocksCall OfflineEnv ''/repo'' []))
        \<and> (\<not> ModuleLoaded OfflineEnv
            \<or> \<not> fst (Git OfflineEnv (Calls ?w @ [LocksCall OfflineEnv ''/repo'' []])
                         (LocksCall OfflineEnv ''/repo'' [''--cached'']))
            \<or> \<not> fst (Git OfflineEnv
                         (Calls ?w @ [LocksCall OfflineEnv ''/repo'' [],
                                      LocksCall OfflineEnv ''/repo'' [''--cached'']])
                         (LocksCall OfflineEnv ''/repo'' [''--local''])))"
    by (simp add: OfflineEnv_def FailingGit_def World0_def CacheLimit_def TicksPerSecond_def)
  note T = lock_cache_never_fails [of OfflineEnv "31 * TicksPerSecond" "''/repo''" "''git''" "[]"
      Map.empty False ?w]
  have "LockedFiles ?w = LockedByBob"
    by simp
  with T [THEN conjunct1] T [THEN conjunct2, THEN mp, OF pre] show ?thesis
    unfolding Let_def by simp
qed

section \<open>Properties of the merge into the state cache\<close>

lemma MergeState_other_key:
  assumes "Key (fst pr) \<noteq> Key k"
  shows "StateCache (MergeState env Now P pr) (Key k) = StateCache P (Key k)"
  using assms
  by (cases pr)
     (auto simp: MergeState_def GetStateInternal_def TMap_Add_def Let_def split: option.splits)

lemma MergeState_rejected:
  assumes "FileState NewState = EFileState_Added"
    and "StateCache P (Key k) = Some (k0, S)"
    and "\<not> IsUnknown env S" and "\<not> CanAdd env S"
  shows "MergeState env Now P (k, NewState) = P"
  using assms by (simp add: MergeState_def GetStateInternal_def)

lemma MergeStates_other_keys:
  assumes "\<forall>pr \<in> set prs. Key (fst pr) \<noteq> Key k"
  shows "StateCache (foldl (MergeState env Now) P prs) (Key k) = StateCache P (Key k)"
  using assms
proof (induction prs arbitrary: P)
  case Nil
  show ?case by simp
next
  case (Cons pr rest)
  then show ?case
    by (simp add: MergeState_other_key)
qed

text \<open>
  C1. Let \<^verbatim>\<open>InResults\<close> be a map (its keys are distinct) that proposes
  \<^verbatim>\<open>FileState = Added\<close> for a path whose cached state is neither \<^verbatim>\<open>IsUnknown\<close>
  nor \<^verbatim>\<open>CanAdd\<close>. Then \<^verbatim>\<open>UpdateCachedStates\<close> leaves the cached entry of that
  path as it is, its \<^verbatim>\<open>FileState\<close> included; so a state cached as \<^verbatim>\<open>Modified\<close>,
  when it is neither, is still \<^verbatim>\<open>Modified\<close> and not \<^verbatim>\<open>Added\<close> after the merge.
\<close>

theorem added_rejected_over_cached_state:
  assumes keys: "distinct (map (\<lambda>pr. Key (fst pr)) InResults)"
    and new: "(k, NewState) \<in> set InResults" "FileState NewState = EFileState_Added"
    and cached: "StateCache P (Key k) = Some (k0, S)"
    and guard: "\<not> IsUnknown env S" "\<not> CanAdd env S"
  shows "StateCache (snd (UpdateCachedStates env CurrentTime InResults P)) (Key k) = Some (k0, S)
         \<and> (FileState (State S) = EFileState_Modified \<longrightarrow>
               (\<exists>k1 S1. StateCache (snd (UpdateCachedStates env CurrentTime InResults P)) (Key k)
                           = Some (k1, S1)
                        \<and> FileState (State S1) = EFileState_Modified
                        \<and> FileState (State S1) \<noteq> EFileState_Added))"
proof -
  let ?Now = "if UsesCheckout env then CurrentTime else 0"
  from new(1) obtain before after where split: "InResults = before @ (k, NewState) # after"
    by (auto simp: in_set_conv_decomp)
  have other1: "\<forall>pr \<in> set before. Key (fst pr) \<noteq> Key k"
    and other2: "\<forall>pr \<in> set after. Key (fst pr) \<noteq> Key k"
    using keys unfolding split by (auto simp: image_iff)
  let ?P1 = "foldl (MergeState env ?Now) P before"
  have c1: "StateCache ?P1 (Key k) = Some (k0, S)"
    using MergeStates_other_keys[OF other1] cached by simp
  have c2: "MergeState env ?Now ?P1 (k, NewState) = ?P1"
    using MergeState_rejected[OF new(2) c1 guard] .
  have "foldl (MergeState env ?Now) P InResults = foldl (MergeState env ?Now) ?P1 after"
    unfolding split using c2 by simp
  then have "StateCache (foldl (MergeState env ?Now) P InResults) (Key k) = Some (k0, S)"
    using MergeStates_other_keys[OF other2] c1 by simp
  moreover have "StateCache (snd (UpdateCachedStates env CurrentTime InResults P)) (Key k) =
                 (if ModuleLoaded env
                  then StateCache (foldl (MergeState env ?Now) P InResults) (Key k)
                  else StateCache P (Key k))"
    using new(1) by (auto simp: UpdateCachedStates_def)
  ultimately have "StateCache (snd (UpdateCachedStates env CurrentTime InResults P)) (Key k)
                     = Some (k0, S)"
    using cached by simp
  then show ?thesis by simp
qed


theorem added_rejected_over_cached_state_witness:
  "map_option (\<lambda>S. (FileState (State S), TimeStamp S))
     (TMap_Find
        (StateCache (snd (UpdateCachedStates SampleEnv 1000
           [(''Content/A.uasset'', AddedFragment), (''Content/B.uasset'', AddedFragment)]
           CacheWithModifiedA)))
        ''Content/A.uasset'')
     = Some (EFileState_Modified, 0)
   \<and> map_option (\<lambda>S. (FileState (State S), TimeStamp S))
     (TMap_Find
        (StateCache (snd (UpdateCachedStates SampleEnv 1000
           [(''Content/A.uasset'', AddedFragment), (''Content/B.uasset'', AddedFragment)]
           CacheWithModifiedA)))
        ''Content/B.uasset'')
     = Some (EFileState_Added, 1000)"
proof -
  let ?In = "[(''Content/A.uasset'', AddedFragment), (''Content/B.uasset'', AddedFragment)]"
  have keys: "distinct (map (\<lambda>pr. Key (fst pr)) ?In)"
    by (simp add: Key_def ToLower_def)
  have new: "(''Content/A.uasset'', AddedFragment) \<in> set ?In"
    "FileState AddedFragment = EFileState_Added"
    by (simp_all add: AddedFragment_def)
  have cached: "StateCache CacheWithModifiedA (Key ''Content/A.uasset'')
                  = Some (''Content/A.uasset'', ModifiedA)"
    by (simp add: CacheWithModifiedA_def TMap_Add_def)
  have guard: "\<not> IsUnknown SampleEnv ModifiedA" "\<not> CanAdd SampleEnv ModifiedA"
    by (simp_all add: SampleEnv_def ModifiedA_def SampleState_def)
  from added_rejected_over_cached_state [OF keys new cached guard, of 1000, THEN conjunct1]
  have A: "map_option (\<lambda>S. (FileState (State S), TimeStamp S))
     (TMap_Find (StateCache (snd (UpdateCachedStates SampleEnv 1000 ?In CacheWithModifiedA)))
        ''Content/A.uasset'') = Some (EFileState_Modified, 0)"
    by (simp add: TMap_Find_def ModifiedA_def SampleState_def)
  have B: "map_option (\<lambda>S. (FileState (State S), TimeStamp S))
     (TMap_Find (StateCache (snd (UpdateCachedStates SampleEnv 1000 ?In CacheWithModifiedA)))
        ''Content/B.uasset'') = Some (EFileState_Added, 1000)"
    by (simp add: UpdateCachedStates_def MergeState_def GetStateInternal_def TMap_Find_def
        TMap_Add_def CacheWithModifiedA_def ModifiedA_def AddedFragment_def SampleEnv_def
        SampleState_def Key_def ToLower_def Let_def)
  from A B show ?thesis by (rule conjI)
qed


section \<open>Properties of the state aggregator\<close>

lemma Pairs_Find_None_iff:
  "Pairs_Find m k = None \<longleftrightarrow> Key k \<notin> (\<lambda>p. Key (fst p)) ` set m"
  by (induction m k rule: Pairs_Find.induct) auto

lemma Pairs_Find_Some_mem:
  "Pairs_Find m k = Some v \<Longrightarrow> \<exists>k'. (k', v) \<in> set m"
  by (induction m k rule: Pairs_Find.induct) (auto split: if_splits)

lemma Pairs_Remove_subset: "set (Pairs_Remove m k) \<subseteq> set m"
  by (auto simp: Pairs_Remove_def)

lemma StatusParser_ok:
  assumes "2 \<le> length line"
  shows "\<exists>P. StatusParser line = Inr P"
proof -
  from assms obtain X Y rest where "line = X # Y # rest"
    by (cases line; cases "tl line") auto
  then show ?thesis
    by (simp add: StatusParser_Cons2)
qed

lemma ClassifyFile_total:
  assumes "\<forall>p \<in> set Results. 2 \<le> length (snd p)"
  shows "\<exists>R1 S1 w1. ClassifyFile env bin root File Results w = Inr (R1, S1, w1)
           \<and> set R1 \<subseteq> set Results
           \<and> (Pairs_Find Results File = None \<longrightarrow> FileTreeOf S1 = AbsentResult env File)"
proof (cases "Pairs_Find Results File")
  case None
  then show ?thesis
    by (simp add: ClassifyFile_def Let_def FileTreeOf_def AbsentResult_def)
next
  case (Some Result)
  then obtain k' where "(k', Result) \<in> set Results"
    using Pairs_Find_Some_mem by fastforce
  with assms have "2 \<le> length Result"
    by fastforce
  then obtain P where P: "StatusParser Result = Inr P"
    using StatusParser_ok by blast
  show ?thesis
    using Some P Pairs_Remove_subset[of Results File]
    by (auto simp: ClassifyFile_def Let_def split: prod.splits)
qed

lemma ParseFileStatus_total:
  assumes "\<forall>p \<in> set Results. 2 \<le> length (snd p)"
  shows "\<exists>R1 L1 b1 S w1.
           ParseFileStatus env CurrentTime bin root lfs File (Results, L, b, Out, w)
             = Inr (R1, L1, b1, TMap_Add Out File S, w1)
           \<and> set R1 \<subseteq> set Results
           \<and> (Pairs_Find Results File = None \<longrightarrow> FileTreeOf S = AbsentResult env File)"
proof -
  from ClassifyFile_total[OF assms, where env = env and bin = bin and root = root and File = File and w = w]
  obtain R1 S1 w1 where
    c: "ClassifyFile env bin root File Results w = Inr (R1, S1, w1)"
    and sub: "set R1 \<subseteq> set Results"
    and absent: "Pairs_Find Results File = None \<longrightarrow> FileTreeOf S1 = AbsentResult env File"
    by (elim exE conjE)
  let ?U = "S1\<lparr>State := (State S1)\<lparr>LockState := ELockState_Unlockable\<rparr>\<rparr>"
  have ftU: "FileTreeOf ?U = FileTreeOf S1"
    by (simp add: FileTreeOf_def)
  show ?thesis
  proof (cases "lfs \<and> IsFileLFSLockable env File")
    case False
    have "ParseFileStatus env CurrentTime bin root lfs File (Results, L, b, Out, w)
      = Inr (R1, L, b, TMap_Add Out File ?U, w1)"
    proof (cases lfs)
      case True
      with False have "\<not> IsFileLFSLockable env File" by simp
      with True c show ?thesis by (simp add: ParseFileStatus_def)
    next
      case False
      with c show ?thesis by (simp add: ParseFileStatus_def)
    qed
    with ftU sub absent show ?thesis
      by (intro exI[where x = R1] exI[where x = L] exI[where x = b] exI[where x = ?U]
          exI[where x = w1]) simp
  next
    case True
    obtain L1 w2 where g:
      "(if \<not> b
        then (case GetAllLocks env CurrentTime root bin [] L False w1 of
                ((b', Errs, Locks), w2) \<Rightarrow> (Locks, w2))
        else (L, w1)) = (L1, w2)"
      by (rule prod.exhaust)
    let ?S = "(case TMap_Find L1 File of
                 Some User \<Rightarrow>
                   S1\<lparr>State := (State S1)
                        \<lparr>LockUser := User,
                         LockState := (if FStringEq (GetLockUser env) User
                                       then ELockState_Locked
                                       else ELockState_LockedOther)\<rparr>\<rparr>
               | None \<Rightarrow> S1\<lparr>State := (State S1)\<lparr>LockState := ELockState_NotLocked\<rparr>\<rparr>)"
    have "ParseFileStatus env CurrentTime bin root lfs File (Results, L, b, Out, w)
      = Inr (R1, L1, True, TMap_Add Out File ?S, w2)"
      using c True g by (simp add: ParseFileStatus_def)
    moreover have "FileTreeOf ?S = FileTreeOf S1"
      by (simp add: FileTreeOf_def split: option.splits)
    ultimately show ?thesis
      using sub absent
      by (intro exI[where x = R1] exI[where x = L1] exI[where x = True] exI[where x = ?S]
          exI[where x = w2]) simp
  qed
qed


lemma Pairs_Find_None_subset:
  "Pairs_Find m k = None \<Longrightarrow> set m' \<subseteq> set m \<Longrightarrow> Pairs_Find m' k = None"
  unfolding Pairs_Find_None_iff by blast

lemma ParseFileStatuses_inv:
  assumes "\<forall>p \<in> set Results. 2 \<le> length (snd p)" and "distinct (map Key InFiles)"
  shows "\<exists>R' L' b' Out' w'.
           ParseFileStatuses env CurrentTime bin root lfs InFiles (Results, L, b, Out, w)
             = Inr (R', L', b', Out', w')
           \<and> set R' \<subseteq> set Results
           \<and> (\<forall>k. k \<notin> Key ` set InFiles \<longrightarrow> Out' k = Out k)
           \<and> (\<forall>File \<in> set InFiles. Pairs_Find Results File = None \<longrightarrow>
                 (\<exists>S. Out' (Key File) = Some (File, S) \<and> FileTreeOf S = AbsentResult env File))"
  using assms
proof (induction InFiles arbitrary: Results L b Out w)
  case Nil
  show ?case by simp
next
  case (Cons F rest)
  from ParseFileStatus_total[OF Cons.prems(1), where env = env and CurrentTime = CurrentTime
      and bin = bin and root = root and lfs = lfs and File = F and L = L and b = b
      and Out = Out and w = w]
  obtain R1 L1 b1 S w1 where
    step: "ParseFileStatus env CurrentTime bin root lfs F (Results, L, b, Out, w)
             = Inr (R1, L1, b1, TMap_Add Out F S, w1)"
    and sub1: "set R1 \<subseteq> set Results"
    and absF: "Pairs_Find Results F = None \<longrightarrow> FileTreeOf S = AbsentResult env F"
    by (elim exE conjE)
  have lines1: "\<forall>p \<in> set R1. 2 \<le> length (snd p)"
    using Cons.prems(1) sub1 by blast
  have dist: "distinct (map Key rest)" and fresh: "Key F \<notin> Key ` set rest"
    using Cons.prems(2) by simp_all
  from Cons.IH[OF lines1 dist, where L = L1 and b = b1 and Out = "TMap_Add Out F S" and w = w1]
  obtain R' L' b' Out' w' where
    run: "ParseFileStatuses env CurrentTime bin root lfs rest (R1, L1, b1, TMap_Add Out F S, w1)
            = Inr (R', L', b', Out', w')"
    and sub2: "set R' \<subseteq> set R1"
    and frame: "\<forall>k. k \<notin> Key ` set rest \<longrightarrow> Out' k = TMap_Add Out F S k"
    and rest: "\<forall>File \<in> set rest. Pairs_Find R1 File = None \<longrightarrow>
                 (\<exists>S. Out' (Key File) = Some (File, S) \<and> FileTreeOf S = AbsentResult env File)"
    by (elim exE conjE)
  have r: "ParseFileStatuses env CurrentTime bin root lfs (F # rest) (Results, L, b, Out, w)
             = Inr (R', L', b', Out', w')"
    using step run by simp
  have s: "set R' \<subseteq> set Results"
    using sub1 sub2 by blast
  have f: "\<forall>k. k \<notin> Key ` set (F # rest) \<longrightarrow> Out' k = Out k"
    using frame by (simp add: TMap_Add_def)
  have a: "\<forall>File \<in> set (F # rest). Pairs_Find Results File = None \<longrightarrow>
             (\<exists>S. Out' (Key File) = Some (File, S) \<and> FileTreeOf S = AbsentResult env File)"
  proof (intro ballI impI)
    fix File assume mem: "File \<in> set (F # rest)" and none: "Pairs_Find Results File = None"
    show "\<exists>S. Out' (Key File) = Some (File, S) \<and> FileTreeOf S = AbsentResult env File"
    proof (cases "File \<in> set rest")
      case True
      with rest Pairs_Find_None_subset[OF none sub1] show ?thesis by simp
    next
      case False
      with mem have eq: "File = F" by simp
      have "Out' (Key F) = Some (F, S)"
        using frame fresh by (simp add: TMap_Add_def)
      with absF none eq show ?thesis by simp
    qed
  qed
  from r s f a show ?case
    by (intro exI[where x = R'] exI[where x = L'] exI[where x = b'] exI[where x = Out']
        exI[where x = w'] conjI)
qed

lemma ParseDirectoryStatusResult_frame:
  assumes "\<forall>p \<in> set Results. 2 \<le> length (snd p)"
  shows "\<exists>Out'. ParseDirectoryStatusResult env lfs Results Out = Inr Out'
           \<and> (\<forall>k. k \<notin> (\<lambda>p. Key (fst p)) ` set Results \<longrightarrow> Out' k = Out k)"
  using assms
proof (induction Results arbitrary: Out)
  case Nil
  show ?case by simp
next
  case (Cons p rest)
  obtain k line where p: "p = (k, line)" by (cases p)
  from Cons.prems p have "2 \<le> length line" by simp
  then obtain P where P: "StatusParser line = Inr P"
    using StatusParser_ok by blast
  have lines: "\<forall>p \<in> set rest. 2 \<le> length (snd p)"
    using Cons.prems by simp
  show ?case
  proof (cases "EFileState_Deleted = ReadFileState env line P
                \<or> EFileState_Missing = ReadFileState env line P
                \<or> ETreeState_Untracked = ReadTreeState env line P")
    case True
    let ?S0 = "(if \<not> lfs
                then (MakeState env k)
                       \<lparr>State := (State (MakeState env k))\<lparr>LockState := ELockState_Unlockable\<rparr>\<rparr>
                else MakeState env k)"
    let ?Out1 = "TMap_Add Out k
                   (?S0\<lparr>State := (State ?S0)
                          \<lparr>FileState := ReadFileState env line P,
                           TreeState := ReadTreeState env line P\<rparr>\<rparr>)"
    from Cons.IH[OF lines, of ?Out1]
    obtain Out' where
      run: "ParseDirectoryStatusResult env lfs rest ?Out1 = Inr Out'"
      and frame: "\<forall>k. k \<notin> (\<lambda>p. Key (fst p)) ` set rest \<longrightarrow> Out' k = ?Out1 k"
      by (elim exE conjE)
    have "ParseDirectoryStatusResult env lfs (p # rest) Out = Inr Out'"
      using p P True run by (simp add: Let_def)
    moreover have "\<forall>k'. k' \<notin> (\<lambda>p. Key (fst p)) ` set (p # rest) \<longrightarrow> Out' k' = Out k'"
      using frame p by (simp add: TMap_Add_def)
    ultimately show ?thesis by (intro exI[where x = Out'] conjI)
  next
    case False
    from Cons.IH[OF lines, of Out]
    obtain Out' where
      run: "ParseDirectoryStatusResult env lfs rest Out = Inr Out'"
      and frame: "\<forall>k. k \<notin> (\<lambda>p. Key (fst p)) ` set rest \<longrightarrow> Out' k = Out k"
      by (elim exE conjE)
    have "ParseDirectoryStatusResult env lfs (p # rest) Out = Inr Out'"
      using p P False run by (simp add: Let_def)
    moreover have "\<forall>k'. k' \<notin> (\<lambda>p. Key (fst p)) ` set (p # rest) \<longrightarrow> Out' k' = Out k'"
      using frame by simp
    ultimately show ?thesis by (intro exI[where x = Out'] conjI)
  qed
qed

text \<open>
  C7. Let the module be loaded, every status line have its two status characters, and
  \<^verbatim>\<open>InFiles\<close> be a set (its elements are distinct as keys). For an explicit file
  that has no entry in the map of status lines, \<^verbatim>\<open>ParseFileStatusResult\<close> returns
  and puts into \<^verbatim>\<open>OutStates\<close> a state of that file with \<^verbatim>\<open>FileState = Unknown\<close>,
  and with \<^verbatim>\<open>TreeState = Unmodified\<close> if the file exists on disk and
  \<^verbatim>\<open>TreeState = NotInRepo\<close> if it does not.
\<close>

theorem absent_paths_classified:
  assumes loaded: "ModuleLoaded env"
    and lines: "\<forall>p \<in> set InResults. 2 \<le> length (snd p)"
    and files: "distinct (map Key InFiles)"
    and explicit: "File \<in> set InFiles"
    and absent: "Key File \<notin> (\<lambda>p. Key (fst p)) ` set InResults"
  shows "\<exists>OutStates' w' S.
           ParseFileStatusResult env CurrentTime bin root lfs InFiles InResults OutStates w
             = Inr (OutStates', w')
           \<and> OutStates' (Key File) = Some (File, S)
           \<and> FileState (State S) = EFileState_Unknown
           \<and> TreeState (State S) =
               (if FileExists env File then ETreeState_Unmodified else ETreeState_NotInRepo)"
proof -
  from ParseFileStatuses_inv[OF lines files, where env = env and CurrentTime = CurrentTime
      and bin = bin and root = root and lfs = lfs and L = Map.empty and b = False
      and Out = OutStates and w = w]
  obtain R' L' b' Out1 w' where
    run: "ParseFileStatuses env CurrentTime bin root lfs InFiles
            (InResults, Map.empty, False, OutStates, w) = Inr (R', L', b', Out1, w')"
    and sub: "set R' \<subseteq> set InResults"
    and found: "\<forall>File \<in> set InFiles. Pairs_Find InResults File = None \<longrightarrow>
                 (\<exists>S. Out1 (Key File) = Some (File, S) \<and> FileTreeOf S = AbsentResult env File)"
    by (elim exE conjE)
  have none: "Pairs_Find InResults File = None"
    using absent by (simp add: Pairs_Find_None_iff)
  with found explicit obtain S where
    S: "Out1 (Key File) = Some (File, S)" "FileTreeOf S = AbsentResult env File"
    by auto
  have lines': "\<forall>p \<in> set R'. 2 \<le> length (snd p)"
    using lines sub by blast
  from ParseDirectoryStatusResult_frame[OF lines', of env lfs Out1]
  obtain Out2 where
    dir: "ParseDirectoryStatusResult env lfs R' Out1 = Inr Out2"
    and frame: "\<forall>k. k \<notin> (\<lambda>p. Key (fst p)) ` set R' \<longrightarrow> Out2 k = Out1 k"
    by (elim exE conjE)
  have "Key File \<notin> (\<lambda>p. Key (fst p)) ` set R'"
    using absent sub by blast
  with frame S(1) have out: "Out2 (Key File) = Some (File, S)"
    by simp
  have res: "ParseFileStatusResult env CurrentTime bin root lfs InFiles InResults OutStates w
               = Inr (Out2, w')"
    using loaded run dir by (simp add: ParseFileStatusResult_def)
  from S(2) have "FileState (State S) = EFileState_Unknown"
    "TreeState (State S) =
       (if FileExists env File then ETreeState_Unmodified else ETreeState_NotInRepo)"
    by (simp_all add: FileTreeOf_def AbsentResult_def)
  with res out show ?thesis
    by (intro exI[where x = Out2] exI[where x = w'] exI[where x = S] conjI)
qed


theorem absent_paths_classified_witness:
  "(\<exists>OutStates' w' S.
      ParseFileStatusResult SampleEnv (31 * TicksPerSecond) ''git'' ''/repo'' True
        [''/repo/Content/A.uasset'', ''/repo/Content/B.uasset'', ''/repo/Content/C.uasset'']
        [(''/repo/Content/A.uasset'', ''M  Content/A.uasset'')] Map.empty World0
        = Inr (OutStates', w')
      \<and> OutStates' (Key ''/repo/Content/B.uasset'') = Some (''/repo/Content/B.uasset'', S)
      \<and> FileState (State S) = EFileState_Unknown
      \<and> TreeState (State S) = ETreeState_Unmodified)
   \<and> (\<exists>OutStates' w' S.
      ParseFileStatusResult SampleEnv (31 * TicksPerSecond) ''git'' ''/repo'' True
        [''/repo/Content/A.uasset'', ''/repo/Content/B.uasset'', ''/repo/Content/C.uasset'']
        [(''/repo/Content/A.uasset'', ''M  Content/A.uasset'')] Map.empty World0
        = Inr (OutStates', w')
      \<and> OutStates' (Key ''/repo/Content/C.uasset'') = Some (''/repo/Content/C.uasset'', S)
      \<and> FileState (State S) = EFileState_Unknown
      \<and> TreeState (State S) = ETreeState_NotInRepo)"
proof -
  let ?Files = "[''/repo/Content/A.uasset'', ''/repo/Content/B.uasset'', ''/repo/Content/C.uasset'']"
  let ?Lines = "[(''/repo/Content/A.uasset'', ''M  Content/A.uasset'')]"
  have loaded: "ModuleLoaded SampleEnv"
    by (simp add: SampleEnv_def)
  have lines: "\<forall>p \<in> set ?Lines. 2 \<le> length (snd p)"
    by simp
  have files: "distinct (map Key ?Files)"
    by (simp add: Key_def ToLower_def)
  have B: "''/repo/Content/B.uasset'' \<in> set ?Files"
    "Key ''/repo/Content/B.uasset'' \<notin> (\<lambda>p. Key (fst p)) ` set ?Lines"
    by (simp_all add: Key_def ToLower_def)
  have C: "''/repo/Content/C.uasset'' \<in> set ?Files"
    "Key ''/repo/Content/C.uasset'' \<notin> (\<lambda>p. Key (fst p)) ` set ?Lines"
    by (simp_all add: Key_def ToLower_def)
  have existsB: "FileExists SampleEnv ''/repo/Content/B.uasset''"
    and existsC: "\<not> FileExists SampleEnv ''/repo/Content/C.uasset''"
    by (simp_all add: SampleEnv_def)
  from absent_paths_classified [OF loaded lines files B, of "31 * TicksPerSecond" "''git''"
      "''/repo''" True Map.empty World0] existsB
  have 1: "\<exists>OutStates' w' S.
      ParseFileStatusResult SampleEnv (31 * TicksPerSecond) ''git'' ''/repo'' True ?Files ?Lines
        Map.empty World0 = Inr (OutStates', w')
      \<and> OutStates' (Key ''/repo/Content/B.uasset'') = Some (''/repo/Content/B.uasset'', S)
      \<and> FileState (State S) = EFileState_Unknown
      \<and> TreeState (State S) = ETreeState_Unmodified"
    by simp
  from absent_paths_classified [OF loaded lines files C, of "31 * TicksPerSecond" "''git''"
      "''/repo''" True Map.empty World0] existsC
  have 2: "\<exists>OutStates' w' S.
      ParseFileStatusResult SampleEnv (31 * TicksPerSecond) ''git'' ''/repo'' True ?Files ?Lines
        Map.empty World0 = Inr (OutStates', w')
      \<and> OutStates' (Key ''/repo/Content/C.uasset'') = Some (''/repo/Content/C.uasset'', S)
      \<and> FileState (State S) = EFileState_Unknown
      \<and> TreeState (State S) = ETreeState_NotInRepo"
    by simp
  from 1 2 show ?thesis by (rule conjI)
qed


end
